theory Spec2Isabelle
  imports Complex_Main "HOL-Library.Word"
begin

unbundle bit_operations_syntax

section \<open>The HWRNG sample collector and tester of \<^verbatim>\<open>pic32/hwrng.c\<close>\<close>

subsection \<open>Machine types\<close>

text \<open>
  \<^verbatim>\<open>fix16_t\<close> is an \<^verbatim>\<open>int32_t\<close> holding a Q16.16 number; it is read with \<open>sint\<close>.
  HWRNG samples are \<^verbatim>\<open>uint16_t\<close>, buffer bytes \<^verbatim>\<open>uint8_t\<close>, the test bitset
  \<^verbatim>\<open>uint32_t\<close>. The target is a 32-bit MIPS core: \<^verbatim>\<open>int\<close> and \<^verbatim>\<open>unsigned int\<close> have 32 bits,
  signed arithmetic is two's complement and \<^verbatim>\<open>>>\<close> on a signed value is an arithmetic
  shift.
\<close>

type_synonym fix16 = "32 word"
type_synonym sample = "16 word"
type_synonym byte = "8 word"

text \<open>The number that a Q16.16 word stands for.\<close>

definition Q16 :: "fix16 \<Rightarrow> real" where
  "Q16 x = real_of_int (sint x) / 65536"

subsection \<open>Compile-time configuration\<close>

text \<open>
  The constants below come from headers that are not among the sources
  (\<^verbatim>\<open>hwrng_limits.h\<close>, \<^verbatim>\<open>adc.h\<close>, \<^verbatim>\<open>statistics.h\<close>, \<^verbatim>\<open>fft.h\<close>) and from the two
  build switches tested with \<^verbatim>\<open>#ifdef\<close>. They are parameters of the model.
\<close>

record config =
  ADC_SAMPLE_BUFFER_SIZE :: nat
  SAMPLE_COUNT :: nat
  FFT_SIZE :: nat
  HISTOGRAM_NUM_BINS :: nat
  SAMPLE_SCALE_DOWN :: real
  ENTROPY_BITS_PER_SAMPLE :: real
  STATTEST_MIN_MEAN :: real
  STATTEST_MAX_MEAN :: real
  STATTEST_MIN_VARIANCE :: real
  STATTEST_MAX_VARIANCE :: real
  STATTEST_MAX_SKEWNESS :: real
  STATTEST_MIN_KURTOSIS :: real
  STATTEST_MAX_KURTOSIS :: real
  STATTEST_MIN_ENTROPY :: real
  PSD_MIN_PEAK :: real
  PSD_MAX_PEAK :: real
  PSD_MIN_BANDWIDTH :: real
  PSD_BANDWIDTH_THRESHOLD :: real
  PSD_THRESHOLD_REPETITIONS :: int
  AUTOCORR_START_LAG :: nat
  AUTOCORR_THRESHOLD :: real
  TEST_STATISTICS :: bool
  IGNORE_HWRNG_FAILURE :: bool

definition OVERSAMPLE_RATIO :: nat where
  "OVERSAMPLE_RATIO = 2"

definition DECIMATED_SAMPLE_BUFFER_SIZE :: "config \<Rightarrow> nat" where
  "DECIMATED_SAMPLE_BUFFER_SIZE cfg = ADC_SAMPLE_BUFFER_SIZE cfg div OVERSAMPLE_RATIO"

definition FILTER_HALF_ORDER :: nat where
  "FILTER_HALF_ORDER = 8"

definition FILTER_ORDER :: nat where
  "FILTER_ORDER = 2 * FILTER_HALF_ORDER + 1"

definition fir_lowpass_coefficients :: "32 word list" where
  "fir_lowpass_coefficients =
     [- 123, 202, 711, 0, - 2681, - 2929, 5309, 19161,
      26236,
      19161, 5309, - 2929, - 2681, 0, 711, 202, - 123]"

text \<open>
  What the build checks before the file compiles: the three \<^verbatim>\<open>#error\<close> tests (a
  remainder by zero is itself rejected by the preprocessor, so
  \<^verbatim>\<open>DECIMATED_SAMPLE_BUFFER_SIZE\<close> and \<^verbatim>\<open>FFT_SIZE\<close> are positive), and the declaration
  \<^verbatim>\<open>samples[SAMPLE_COUNT]\<close>, an array of positive size indexed by 32-bit unsigned
  counters.
\<close>

definition config_ok :: "config \<Rightarrow> bool" where
  "config_ok cfg \<longleftrightarrow>
     0 < DECIMATED_SAMPLE_BUFFER_SIZE cfg \<and>
     SAMPLE_COUNT cfg mod DECIMATED_SAMPLE_BUFFER_SIZE cfg = 0 \<and>
     0 < FFT_SIZE cfg \<and>
     SAMPLE_COUNT cfg mod (FFT_SIZE cfg * 2) = 0 \<and>
     DECIMATED_SAMPLE_BUFFER_SIZE cfg mod 16 = 0 \<and>
     0 < SAMPLE_COUNT cfg \<and> SAMPLE_COUNT cfg < 2 ^ 32"

text \<open>
  The ADC buffer size is a power of two that an \<^verbatim>\<open>unsigned int\<close> can hold (the
  assumption behind the mask \<^verbatim>\<open>& (ADC_SAMPLE_BUFFER_SIZE - 1)\<close>).
\<close>

definition is_power_of_two :: "nat \<Rightarrow> bool" where
  "is_power_of_two n \<longleftrightarrow> n \<in> set (map (\<lambda>k. 2 ^ k) [0..<32])"

subsection \<open>FIR decimator\<close>

text \<open>
  \<^verbatim>\<open>index = (base_index + i) & (ADC_SAMPLE_BUFFER_SIZE - 1)\<close> in \<^verbatim>\<open>firFilter\<close>, and
  \<^verbatim>\<open>base_index = ((j * OVERSAMPLE_RATIO) - FILTER_HALF_ORDER) & (ADC_SAMPLE_BUFFER_SIZE - 1)\<close>
  in \<^verbatim>\<open>fillAndTestSamplesArray\<close>; both are \<^verbatim>\<open>unsigned int\<close> computations, which wrap
  modulo \<open>2 ^ 32\<close>.
\<close>

definition fir_index :: "config \<Rightarrow> 32 word \<Rightarrow> 32 word \<Rightarrow> 32 word" where
  "fir_index cfg base_index i =
     (base_index + i) AND (word_of_nat (ADC_SAMPLE_BUFFER_SIZE cfg) - 1)"

definition fir_base_index :: "config \<Rightarrow> 32 word \<Rightarrow> 32 word" where
  "fir_base_index cfg j =
     ((j * word_of_nat OVERSAMPLE_RATIO) - word_of_nat FILTER_HALF_ORDER)
       AND (word_of_nat (ADC_SAMPLE_BUFFER_SIZE cfg) - 1)"

text \<open>
  The body of the convolution loop:
  \<^verbatim>\<open>sum += ((int32_t)samples[index]) * coefficients[i]\<close>.
\<close>

definition fir_step ::
  "config \<Rightarrow> sample list \<Rightarrow> 32 word \<Rightarrow> 32 word list \<Rightarrow> nat \<Rightarrow> 32 word \<Rightarrow> 32 word" where
  "fir_step cfg samples_in base_index coefficients i acc =
     (let index = fir_index cfg base_index (word_of_nat i)
      in acc + ucast (samples_in ! unat index) * (coefficients ! i))"

text \<open>The loop \<^verbatim>\<open>for (i = 0; i < order; i++)\<close>, started with \<^verbatim>\<open>sum = 0\<close>.\<close>

definition fir_convolution ::
  "config \<Rightarrow> sample list \<Rightarrow> 32 word \<Rightarrow> 32 word list \<Rightarrow> nat \<Rightarrow> 32 word" where
  "fir_convolution cfg samples_in base_index coefficients order =
     fold (fir_step cfg samples_in base_index coefficients) [0..<order] 0"

text \<open>The return expression \<^verbatim>\<open>(sum >> 16) + ((sum >> 15) & 1)\<close>.\<close>

definition fir_round :: "32 word \<Rightarrow> 32 word" where
  "fir_round acc = signed_drop_bit 16 acc + (signed_drop_bit 15 acc AND 1)"

definition firFilter ::
  "config \<Rightarrow> sample list \<Rightarrow> 32 word \<Rightarrow> 32 word list \<Rightarrow> nat \<Rightarrow> 32 word" where
  "firFilter cfg samples_in base_index coefficients order =
     fir_round (fir_convolution cfg samples_in base_index coefficients order)"

subsection \<open>Fixed-point helpers\<close>

text \<open>
  Modelled from the spec: \<^verbatim>\<open>fix16.h\<close> and \<^verbatim>\<open>fix16.c\<close> (the type \<^verbatim>\<open>fix16_t\<close>,
  \<^verbatim>\<open>fix16_mul\<close>, \<^verbatim>\<open>fix16_add\<close>, \<^verbatim>\<open>fix16_from_int\<close>, the macro \<^verbatim>\<open>F16\<close> and the flag
  \<^verbatim>\<open>fix16_error_occurred\<close>) are not among the sources. The spec describes a Q16.16
  type with a saturating, rounding multiply, a saturating add, conversion from
  integers, a compile-time conversion \<^verbatim>\<open>F16(literal)\<close>, and a sticky error flag that
  records overflow. Each operation below returns its value together with the
  boolean it would OR into the sticky flag.
\<close>

definition fix16_zero :: fix16 where
  "fix16_zero = 0"

definition fix16_saturate :: "int \<Rightarrow> fix16 \<times> bool" where
  "fix16_saturate r =
     (if r > 2147483647 then (word_of_int 2147483647, True)
      else if r < - 2147483648 then (word_of_int (- 2147483648), True)
      else (word_of_int r, False))"

definition fix16_mul :: "fix16 \<Rightarrow> fix16 \<Rightarrow> fix16 \<times> bool" where
  "fix16_mul a b = fix16_saturate ((sint a * sint b + 32768) div 65536)"

definition fix16_add :: "fix16 \<Rightarrow> fix16 \<Rightarrow> fix16 \<times> bool" where
  "fix16_add a b = fix16_saturate (sint a + sint b)"

definition fix16_from_int :: "int \<Rightarrow> fix16" where
  "fix16_from_int a = word_of_int (a * 65536)"

definition F16 :: "real \<Rightarrow> fix16" where
  "F16 x = word_of_int \<lfloor>x * 65536 + 1 / 2\<rfloor>"

subsection \<open>The statistics library, as seen from this file\<close>

text \<open>
  \<^verbatim>\<open>statistics.c\<close> and \<^verbatim>\<open>fft.c\<close> are not among the sources. A value of type
  \<open>statistics\<close> holds what their functions and globals deliver to \<^verbatim>\<open>hwrng.c\<close> once
  the histogram and the PSD accumulator have been cleared and filled from a pool
  of samples: \<^verbatim>\<open>calculateCentralMoment(mean, power)\<close> and \<^verbatim>\<open>estimateEntropy()\<close>, each
  with the boolean it ORs into \<^verbatim>\<open>fix16_error_occurred\<close>; the globals
  \<^verbatim>\<open>histogram_overflow_occurred\<close>, \<^verbatim>\<open>psd_accumulator\<close> (\<^verbatim>\<open>FFT_SIZE + 1\<close> entries) and
  \<^verbatim>\<open>psd_accumulator_error_occurred\<close>; and \<^verbatim>\<open>calculateAutoCorrelation(fft_buffer)\<close>,
  which fills \<^verbatim>\<open>fft_buffer\<close> (\<^verbatim>\<open>FFT_SIZE + 1\<close> entries) and returns whether an
  arithmetic error occurred.
\<close>

record ComplexFixed =
  cf_real :: fix16
  cf_imag :: fix16

record statistics =
  calculateCentralMoment :: "fix16 \<Rightarrow> nat \<Rightarrow> fix16 \<times> bool"
  estimateEntropy :: "fix16 \<times> bool"
  histogram_overflow_occurred :: bool
  psd_accumulator :: "fix16 list"
  psd_accumulator_error_occurred :: bool
  calculateAutoCorrelation :: "ComplexFixed list \<times> bool"

subsection \<open>Bandwidth estimate\<close>

text \<open>
  The first loop of \<^verbatim>\<open>estimateBandwidth\<close>: \<^verbatim>\<open>for (i = 0; i < (FFT_SIZE + 1); i++)\<close>,
  carrying \<^verbatim>\<open>threshold\<close> and \<^verbatim>\<open>max_bin\<close>.
\<close>

definition peak_step :: "fix16 list \<Rightarrow> nat \<Rightarrow> fix16 \<times> int \<Rightarrow> fix16 \<times> int" where
  "peak_step psd i tm =
     (case tm of (threshold, max_bin) \<Rightarrow>
        if sint (psd ! i) > sint threshold then (psd ! i, int i) else (threshold, max_bin))"

definition find_peak :: "config \<Rightarrow> fix16 list \<Rightarrow> fix16 \<times> int" where
  "find_peak cfg psd = fold (peak_step psd) [0..<FFT_SIZE cfg + 1] (fix16_zero, 0)"

text \<open>
  The counter update shared by both edge searches:
  \<^verbatim>\<open>if (psd_accumulator[i] < threshold) below_counter++; else below_counter = 0;\<close>
\<close>

definition count_below :: "fix16 list \<Rightarrow> fix16 \<Rightarrow> int \<Rightarrow> int \<Rightarrow> int" where
  "count_below psd threshold i below_counter =
     (if sint (psd ! nat i) < sint threshold then below_counter + 1 else 0)"

text \<open>
  The search for the left edge, \<^verbatim>\<open>for (i = max_bin; i >= 0; i--)\<close>: the result is
  \<^verbatim>\<open>left_bin\<close>, which keeps its initial value 0 when the loop ends without a
  \<^verbatim>\<open>break\<close>.
\<close>

function left_search :: "config \<Rightarrow> fix16 list \<Rightarrow> fix16 \<Rightarrow> int \<Rightarrow> int \<Rightarrow> int" where
  "left_search cfg psd threshold i below_counter =
     (if i \<ge> 0 then
        (let below_counter' = count_below psd threshold i below_counter
         in if below_counter' \<ge> PSD_THRESHOLD_REPETITIONS cfg
            then i + PSD_THRESHOLD_REPETITIONS cfg
            else left_search cfg psd threshold (i - 1) below_counter')
      else 0)"
  by pat_completeness auto
termination
  by (relation "measure (\<lambda>(cfg, psd, threshold, i, below_counter). nat (i + 1))") auto

declare left_search.simps [simp del]

text \<open>
  The search for the right edge, \<^verbatim>\<open>for (i = max_bin; i < (FFT_SIZE + 1); i++)\<close>: the
  result is \<^verbatim>\<open>right_bin\<close>, which keeps its initial value \<^verbatim>\<open>FFT_SIZE\<close> when the loop
  ends without a \<^verbatim>\<open>break\<close>.
\<close>

function right_search :: "config \<Rightarrow> fix16 list \<Rightarrow> fix16 \<Rightarrow> int \<Rightarrow> int \<Rightarrow> int" where
  "right_search cfg psd threshold i below_counter =
     (if i < int (FFT_SIZE cfg) + 1 then
        (let below_counter' = count_below psd threshold i below_counter
         in if below_counter' \<ge> PSD_THRESHOLD_REPETITIONS cfg
            then i - PSD_THRESHOLD_REPETITIONS cfg
            else right_search cfg psd threshold (i + 1) below_counter')
      else int (FFT_SIZE cfg))"
  by pat_completeness auto
termination
  by (relation "measure (\<lambda>(cfg, psd, threshold, i, below_counter). nat (int (FFT_SIZE cfg) + 1 - i))") auto

declare right_search.simps [simp del]

text \<open>
  \<^verbatim>\<open>estimateBandwidth\<close> returns the pair of \<^verbatim>\<open>*out_max_bin\<close> and the bandwidth. The
  \<^verbatim>\<open>int\<close> variables stay far inside the 32-bit range (they are bounded by
  \<^verbatim>\<open>FFT_SIZE\<close> and \<^verbatim>\<open>PSD_THRESHOLD_REPETITIONS\<close>), so they are integers here.
\<close>

definition estimateBandwidth :: "config \<Rightarrow> fix16 list \<Rightarrow> int \<times> int" where
  "estimateBandwidth cfg psd =
     (let (threshold, max_bin) = find_peak cfg psd;
          threshold = fst (fix16_mul threshold (F16 (PSD_BANDWIDTH_THRESHOLD cfg)));
          left_bin = left_search cfg psd threshold max_bin 0;
          right_bin = right_search cfg psd threshold max_bin 0
      in (max_bin, right_bin - left_bin))"

subsection \<open>Largest autocorrelation amplitude\<close>

text \<open>
  The loop body of \<^verbatim>\<open>findMaximumAutoCorrelation\<close>. The negation \<^verbatim>\<open>sample = -sample\<close>
  is a 32-bit two's complement negation: it maps the least value \<open>- 2^31\<close> to
  itself.
\<close>

definition autocorr_step :: "ComplexFixed list \<Rightarrow> nat \<Rightarrow> fix16 \<Rightarrow> fix16" where
  "autocorr_step fft_buffer i max_so_far =
     (let sample = cf_real (fft_buffer ! i);
          sample = (if sint sample < sint fix16_zero then - sample else sample)
      in if sint sample > sint max_so_far then sample else max_so_far)"

definition findMaximumAutoCorrelation :: "config \<Rightarrow> ComplexFixed list \<Rightarrow> fix16" where
  "findMaximumAutoCorrelation cfg fft_buffer =
     fold (autocorr_step fft_buffer) [AUTOCORR_START_LAG cfg..<FFT_SIZE cfg + 1] fix16_zero"

subsection \<open>Statistical tests\<close>

text \<open>\<^verbatim>\<open>if (c) { tests_failed |= m; }\<close>\<close>

definition fail_if :: "bool \<Rightarrow> 32 word \<Rightarrow> 32 word \<Rightarrow> 32 word" where
  "fail_if c m tests_failed = (if c then tests_failed OR m else tests_failed)"

text \<open>
  The first part of \<^verbatim>\<open>histogramTestsFailed\<close>: the sticky flag is cleared, the four
  moments are computed, the flag is copied to \<^verbatim>\<open>moment_error_occurred\<close> and cleared
  again, the entropy is estimated and the flag is copied to
  \<^verbatim>\<open>entropy_error_occurred\<close>.
\<close>

record histogram_values =
  mean :: fix16
  variance :: fix16
  kappa3 :: fix16
  kappa4 :: fix16
  moment_error_occurred :: bool
  entropy_estimate :: fix16
  entropy_error_occurred :: bool

definition histogram_statistics :: "statistics \<Rightarrow> histogram_values" where
  "histogram_statistics st =
     (let fix16_error_occurred = False;
          (mean_v, e) = calculateCentralMoment st fix16_zero 1;
          fix16_error_occurred = (fix16_error_occurred \<or> e);
          (variance_v, e) = calculateCentralMoment st mean_v 2;
          fix16_error_occurred = (fix16_error_occurred \<or> e);
          (kappa3_v, e) = calculateCentralMoment st mean_v 3;
          fix16_error_occurred = (fix16_error_occurred \<or> e);
          (kappa4_v, e) = calculateCentralMoment st mean_v 4;
          fix16_error_occurred = (fix16_error_occurred \<or> e);
          moment_error = fix16_error_occurred;
          fix16_error_occurred = False;
          (entropy_v, e) = estimateEntropy st;
          fix16_error_occurred = (fix16_error_occurred \<or> e);
          entropy_error = fix16_error_occurred
      in \<lparr>mean = mean_v, variance = variance_v, kappa3 = kappa3_v, kappa4 = kappa4_v,
          moment_error_occurred = moment_error, entropy_estimate = entropy_v,
          entropy_error_occurred = entropy_error\<rparr>)"

text \<open>
  The skewness test: \<^verbatim>\<open>variance_squared\<close>, \<^verbatim>\<open>variance_cubed\<close> and \<^verbatim>\<open>kappa3_squared\<close>
  are Q16.16 products, and the test is
  \<^verbatim>\<open>kappa3_squared >= fix16_mul(variance_cubed, F16(STATTEST_MAX_SKEWNESS * STATTEST_MAX_SKEWNESS))\<close>.
\<close>

definition skewness_out_of_bounds :: "config \<Rightarrow> fix16 \<Rightarrow> fix16 \<Rightarrow> bool" where
  "skewness_out_of_bounds cfg variance_v kappa3_v =
     (let variance_squared = fst (fix16_mul variance_v variance_v);
          variance_cubed = fst (fix16_mul variance_squared variance_v);
          kappa3_squared = fst (fix16_mul kappa3_v kappa3_v)
      in sint kappa3_squared \<ge>
           sint (fst (fix16_mul variance_cubed
                        (F16 (STATTEST_MAX_SKEWNESS cfg * STATTEST_MAX_SKEWNESS cfg)))))"

text \<open>
  The tests of \<^verbatim>\<open>histogramTestsFailed\<close>, in the order of the source. The sticky flag
  is not read again after \<^verbatim>\<open>entropy_error_occurred\<close> is taken, so only the values
  of the later fixed-point operations are used. The result is the pair of the
  returned bitset and \<^verbatim>\<open>*variance\<close>.
\<close>

definition histogramTestsFailed :: "config \<Rightarrow> statistics \<Rightarrow> 32 word \<times> fix16" where
  "histogramTestsFailed cfg st =
     (let h = histogram_statistics st;
          tests_failed = 0;
          tests_failed = fail_if (sint (mean h) \<le> sint (F16 ((STATTEST_MIN_MEAN cfg
            - real (HISTOGRAM_NUM_BINS cfg div 2)) / SAMPLE_SCALE_DOWN cfg))) 1 tests_failed;
          tests_failed = fail_if (sint (mean h) \<ge> sint (F16 ((STATTEST_MAX_MEAN cfg
            - real (HISTOGRAM_NUM_BINS cfg div 2)) / SAMPLE_SCALE_DOWN cfg))) 1 tests_failed;
          tests_failed = fail_if (sint (variance h) \<le> sint (F16 ((STATTEST_MIN_VARIANCE cfg
            / SAMPLE_SCALE_DOWN cfg) / SAMPLE_SCALE_DOWN cfg))) 2 tests_failed;
          tests_failed = fail_if (sint (variance h) \<ge> sint (F16 ((STATTEST_MAX_VARIANCE cfg
            / SAMPLE_SCALE_DOWN cfg) / SAMPLE_SCALE_DOWN cfg))) 2 tests_failed;
          variance_squared = fst (fix16_mul (variance h) (variance h));
          tests_failed = fail_if (skewness_out_of_bounds cfg (variance h) (kappa3 h)) 4 tests_failed;
          three_times_variance_squared = fst (fix16_mul (fix16_from_int 3) variance_squared);
          term1 = fst (fix16_mul (F16 (STATTEST_MIN_KURTOSIS cfg)) variance_squared);
          tests_failed = fail_if (sint (kappa4 h)
            \<le> sint (fst (fix16_add term1 three_times_variance_squared))) 8 tests_failed;
          term1 = fst (fix16_mul (F16 (STATTEST_MAX_KURTOSIS cfg)) variance_squared);
          tests_failed = fail_if (sint (kappa4 h)
            \<ge> sint (fst (fix16_add term1 three_times_variance_squared))) 8 tests_failed;
          tests_failed = fail_if (moment_error_occurred h \<or> histogram_overflow_occurred st)
            15 tests_failed;
          tests_failed = fail_if (sint (entropy_estimate h) < sint (F16 (STATTEST_MIN_ENTROPY cfg)))
            128 tests_failed;
          tests_failed = fail_if (entropy_error_occurred h) 128 tests_failed
      in (tests_failed, variance h))"

text \<open>
  \<^verbatim>\<open>fftTestsFailed\<close>. The value returned by \<^verbatim>\<open>calculateAutoCorrelation\<close> is what
  the source stores in \<^verbatim>\<open>autocorrelation_error_occurred\<close>.
\<close>

definition fftTestsFailed :: "config \<Rightarrow> statistics \<Rightarrow> fix16 \<Rightarrow> 32 word" where
  "fftTestsFailed cfg st variance_v =
     (let (max_bin, bandwidth) = estimateBandwidth cfg (psd_accumulator st);
          (fft_buffer, autocorrelation_error_occurred) = calculateAutoCorrelation st;
          max_autocorrelation = findMaximumAutoCorrelation cfg fft_buffer;
          tests_failed = 0;
          tests_failed = fail_if (sint (fix16_from_int max_bin)
            < sint (F16 (PSD_MIN_PEAK cfg * 2 * real (FFT_SIZE cfg)))) 16 tests_failed;
          tests_failed = fail_if (sint (fix16_from_int max_bin)
            > sint (F16 (PSD_MAX_PEAK cfg * 2 * real (FFT_SIZE cfg)))) 16 tests_failed;
          tests_failed = fail_if (sint (fix16_from_int bandwidth)
            < sint (F16 (PSD_MIN_BANDWIDTH cfg * 2 * real (FFT_SIZE cfg)))) 32 tests_failed;
          tests_failed = fail_if (psd_accumulator_error_occurred st) 48 tests_failed;
          tests_failed = fail_if (sint max_autocorrelation
            > sint (fst (fix16_mul variance_v (F16 (AUTOCORR_THRESHOLD cfg))))) 64 tests_failed;
          tests_failed = fail_if autocorrelation_error_occurred 64 tests_failed
      in tests_failed)"

text \<open>
  The verdict of a qualification run, as \<^verbatim>\<open>fillAndTestSamplesArray\<close> computes it:
  \<^verbatim>\<open>tests_failed = histogramTestsFailed(&variance); tests_failed |= fftTestsFailed(variance);\<close>
\<close>

definition run_verdict :: "config \<Rightarrow> statistics \<Rightarrow> 32 word" where
  "run_verdict cfg st =
     (let (tests_failed, variance_v) = histogramTestsFailed cfg st
      in tests_failed OR fftTestsFailed cfg st variance_v)"

subsection \<open>The pool of samples and its refill\<close>

text \<open>
  The file's own state: the array \<^verbatim>\<open>samples[SAMPLE_COUNT]\<close> and the counter
  \<^verbatim>\<open>samples_consumed\<close>, a \<^verbatim>\<open>uint32_t\<close> (a natural number here, incremented modulo
  \<open>2 ^ 32\<close>). The histogram and the PSD accumulator belong to the statistics
  library and are cleared at the start of every run.
\<close>

record hwrng_state =
  samples :: "sample list"
  samples_consumed :: nat

text \<open>Static storage is zero-initialised.\<close>

definition initial_state :: "config \<Rightarrow> hwrng_state" where
  "initial_state cfg = \<lparr>samples = replicate (SAMPLE_COUNT cfg) 0, samples_consumed = 0\<rparr>"

text \<open>
  What one call meets outside this file. \<open>adc_fill env k\<close> is the content of
  \<^verbatim>\<open>adc_sample_buffer\<close> when \<^verbatim>\<open>isADCBufferFull()\<close> turns true in the \<open>k\<close>-th
  acquisition of the run, and \<open>None\<close> when it never does, so that the busy-wait
  \<^verbatim>\<open>while (!isADCBufferFull())\<close> does not end. \<open>statistics_of env pool\<close> is what
  the statistics library delivers after \<^verbatim>\<open>incrementHistogram\<close> and
  \<^verbatim>\<open>accumulatePowerSpectralDensity\<close> have been fed the pool.
\<close>

record environment =
  adc_fill :: "nat \<Rightarrow> sample list option"
  statistics_of :: "sample list \<Rightarrow> statistics"

text \<open>
  The inner loop \<^verbatim>\<open>for (j = 0; j < DECIMATED_SAMPLE_BUFFER_SIZE; j++)\<close>, whose body
  stores \<^verbatim>\<open>samples[i + j] = filtered_sample\<close>, the 32-bit filter output cut to 16
  bits.
\<close>

definition filter_block_step ::
  "config \<Rightarrow> sample list \<Rightarrow> nat \<Rightarrow> nat \<Rightarrow> sample list \<Rightarrow> sample list" where
  "filter_block_step cfg adc_sample_buffer i j pool =
     (let base_index = fir_base_index cfg (word_of_nat j);
          filtered_sample =
            firFilter cfg adc_sample_buffer base_index fir_lowpass_coefficients FILTER_ORDER
      in pool[i + j := ucast filtered_sample])"

definition filter_block :: "config \<Rightarrow> sample list \<Rightarrow> nat \<Rightarrow> sample list \<Rightarrow> sample list" where
  "filter_block cfg adc_sample_buffer i pool =
     fold (filter_block_step cfg adc_sample_buffer i) [0..<DECIMATED_SAMPLE_BUFFER_SIZE cfg] pool"

text \<open>
  The outer loop \<^verbatim>\<open>for (i = 0; i < SAMPLE_COUNT; i += DECIMATED_SAMPLE_BUFFER_SIZE)\<close>.
  Each round waits for the ADC and filters its buffer into the next block of the
  pool. (With a block size of 0 the file does not compile; the guard only makes
  the recursion well-founded.)
\<close>

function fill_samples ::
  "config \<Rightarrow> (nat \<Rightarrow> sample list option) \<Rightarrow> nat \<Rightarrow> sample list \<Rightarrow> sample list option" where
  "fill_samples cfg adc i pool =
     (if i < SAMPLE_COUNT cfg \<and> 0 < DECIMATED_SAMPLE_BUFFER_SIZE cfg then
        (case adc (i div DECIMATED_SAMPLE_BUFFER_SIZE cfg) of
           None \<Rightarrow> None
         | Some adc_sample_buffer \<Rightarrow>
             fill_samples cfg adc (i + DECIMATED_SAMPLE_BUFFER_SIZE cfg)
               (filter_block cfg adc_sample_buffer i pool))
      else Some pool)"
  by pat_completeness auto
termination
  by (relation "measure (\<lambda>(cfg, adc, i, pool). SAMPLE_COUNT cfg - i)") auto

declare fill_samples.simps [simp del]

text \<open>
  \<^verbatim>\<open>fillAndTestSamplesArray\<close>: the counter is reset, the pool is filled, the tests
  are run on it. The result is \<open>None\<close> when the ADC never signals a full buffer,
  otherwise the returned boolean and the new state. With
  \<^verbatim>\<open>IGNORE_HWRNG_FAILURE\<close> a failure blinks the LED and \<^verbatim>\<open>false\<close> is returned. The
  reporting of the \<^verbatim>\<open>TEST_STATISTICS\<close> build writes to the display and the
  stream only.
\<close>

definition fillAndTestSamplesArray ::
  "config \<Rightarrow> environment \<Rightarrow> hwrng_state \<Rightarrow> (bool \<times> hwrng_state) option" where
  "fillAndTestSamplesArray cfg env s =
     (case fill_samples cfg (adc_fill env) 0 (samples s) of
        None \<Rightarrow> None
      | Some pool \<Rightarrow>
          (let tests_failed = run_verdict cfg (statistics_of env pool);
               s' = \<lparr>samples = pool, samples_consumed = 0\<rparr>
           in if tests_failed \<noteq> 0
              then (if IGNORE_HWRNG_FAILURE cfg then Some (False, s') else Some (True, s'))
              else Some (False, s')))"

subsection \<open>The consumer operation\<close>

text \<open>\<^verbatim>\<open>(samples_consumed == 0) || (samples_consumed >= SAMPLE_COUNT)\<close>\<close>

definition needs_refill :: "config \<Rightarrow> hwrng_state \<Rightarrow> bool" where
  "needs_refill cfg s \<longleftrightarrow> samples_consumed s = 0 \<or> samples_consumed s \<ge> SAMPLE_COUNT cfg"

text \<open>
  The first half of \<^verbatim>\<open>hardwareRandom32Bytes\<close>, up to the copy loop. \<open>None\<close>: the
  call does not return. \<open>Some (Inl s')\<close>: the early \<^verbatim>\<open>return -1\<close> of the build
  without \<^verbatim>\<open>TEST_STATISTICS\<close>. \<open>Some (Inr (tests_failed, s'))\<close>: control reaches
  the copy loop with this value of the local \<^verbatim>\<open>tests_failed\<close>.
\<close>

definition refill_phase ::
  "config \<Rightarrow> environment \<Rightarrow> hwrng_state \<Rightarrow> (hwrng_state + bool \<times> hwrng_state) option" where
  "refill_phase cfg env s =
     (if needs_refill cfg s then
        (case fillAndTestSamplesArray cfg env s of
           None \<Rightarrow> None
         | Some (failed, s') \<Rightarrow>
             if failed then
               (if TEST_STATISTICS cfg then Some (Inr (True, s')) else Some (Inl s'))
             else Some (Inr (False, s')))
      else Some (Inr (False, s)))"

text \<open>
  The body of the copy loop: \<^verbatim>\<open>sample = samples[samples_consumed]\<close>,
  \<^verbatim>\<open>buffer[i * 2] = (uint8_t)sample\<close>, \<^verbatim>\<open>buffer[i * 2 + 1] = (uint8_t)(sample >> 8)\<close>,
  \<^verbatim>\<open>samples_consumed++\<close>.
\<close>

definition copy_step :: "nat \<Rightarrow> byte list \<times> hwrng_state \<Rightarrow> byte list \<times> hwrng_state" where
  "copy_step i bs =
     (case bs of (buffer, s) \<Rightarrow>
        (let sample_v = (ucast (samples s ! samples_consumed s) :: 32 word)
         in (buffer[i * 2 := ucast sample_v, i * 2 + 1 := ucast (drop_bit 8 sample_v)],
             s\<lparr>samples_consumed := (samples_consumed s + 1) mod 2 ^ 32\<rparr>)))"

definition copy_loop :: "byte list \<Rightarrow> hwrng_state \<Rightarrow> byte list \<times> hwrng_state" where
  "copy_loop buffer s = fold copy_step [0..<16] (buffer, s)"

text \<open>
  The conversion \<^verbatim>\<open>(int)\<close> of a \<^verbatim>\<open>double\<close> discards the fraction, and the product
  of a \<^verbatim>\<open>double\<close> with \<^verbatim>\<open>16.0\<close> is exact; the returned constant is
  \<^verbatim>\<open>(int)(16.0 * ENTROPY_BITS_PER_SAMPLE)\<close>.
\<close>

definition int_of_double :: "real \<Rightarrow> int" where
  "int_of_double x = (if x \<ge> 0 then \<lfloor>x\<rfloor> else \<lceil>x\<rceil>)"

definition entropy_bits :: "config \<Rightarrow> int" where
  "entropy_bits cfg = int_of_double (16 * ENTROPY_BITS_PER_SAMPLE cfg)"

text \<open>The second half: the copy loop and the final \<^verbatim>\<open>if (tests_failed)\<close>.\<close>

definition copy_phase ::
  "config \<Rightarrow> bool \<Rightarrow> hwrng_state \<Rightarrow> byte list \<Rightarrow> int \<times> byte list \<times> hwrng_state" where
  "copy_phase cfg tests_failed s buffer =
     (case copy_loop buffer s of (buffer', s') \<Rightarrow>
        (if tests_failed then - 1 else entropy_bits cfg, buffer', s'))"

text \<open>
  \<^verbatim>\<open>hardwareRandom32Bytes\<close>: the returned \<^verbatim>\<open>int\<close>, the content of the caller's
  buffer after the call, and the new state; \<open>None\<close> when the call does not
  return.
\<close>

definition hardwareRandom32Bytes ::
  "config \<Rightarrow> environment \<Rightarrow> hwrng_state \<Rightarrow> byte list \<Rightarrow> (int \<times> byte list \<times> hwrng_state) option" where
  "hardwareRandom32Bytes cfg env s buffer =
     (case refill_phase cfg env s of
        None \<Rightarrow> None
      | Some (Inl s') \<Rightarrow> Some (- 1, buffer, s')
      | Some (Inr (tests_failed, s')) \<Rightarrow> Some (copy_phase cfg tests_failed s' buffer))"

subsection \<open>Sequences of calls and what they deliver\<close>


text \<open>
  The qualification run that a call performs from state \<open>s\<close>, if it performs one
  and the run ends: its verdict (the value of \<^verbatim>\<open>tests_failed\<close> in
  \<^verbatim>\<open>fillAndTestSamplesArray\<close>) and the pool it leaves in \<^verbatim>\<open>samples\<close>.
\<close>

definition qualification_run ::
  "config \<Rightarrow> environment \<Rightarrow> hwrng_state \<Rightarrow> (32 word \<times> sample list) option" where
  "qualification_run cfg env s =
     (if needs_refill cfg s then
        (case fill_samples cfg (adc_fill env) 0 (samples s) of
           None \<Rightarrow> None
         | Some pool \<Rightarrow> Some (run_verdict cfg (statistics_of env pool), pool))
      else None)"

text \<open>
  A record kept beside the program, for stating what is delivered: the verdict and
  pool of the most recent qualification run, and how many samples of that pool
  have been handed out since. A call that performs a run starts a new record; a
  call that returns a non-negative value hands out 16 samples.
\<close>

record audit =
  last_run :: "(32 word \<times> sample list) option"
  delivered :: nat

definition initial_audit :: audit where
  "initial_audit = \<lparr>last_run = None, delivered = 0\<rparr>"

definition audit_run :: "config \<Rightarrow> environment \<Rightarrow> hwrng_state \<Rightarrow> audit \<Rightarrow> audit" where
  "audit_run cfg env s a =
     (case qualification_run cfg env s of
        None \<Rightarrow> a
      | Some r \<Rightarrow> \<lparr>last_run = Some r, delivered = 0\<rparr>)"

definition audit_return :: "int \<Rightarrow> audit \<Rightarrow> audit" where
  "audit_return ret a = (if ret \<ge> 0 then a\<lparr>delivered := delivered a + 16\<rparr> else a)"

fun audit_calls ::
  "config \<Rightarrow> (environment \<times> byte list) list \<Rightarrow> hwrng_state \<times> audit
     \<Rightarrow> (hwrng_state \<times> audit) option" where
  "audit_calls cfg [] sa = Some sa"
| "audit_calls cfg ((env, buffer) # calls) sa =
     (case hardwareRandom32Bytes cfg env (fst sa) buffer of
        None \<Rightarrow> None
      | Some (ret, buffer', s') \<Rightarrow>
          audit_calls cfg calls (s', audit_return ret (audit_run cfg env (fst sa) (snd sa))))"

text \<open>The two bytes of a sample, low byte first, and the bytes of a list of samples.\<close>

definition sample_bytes :: "sample list \<Rightarrow> byte list" where
  "sample_bytes xs =
     concat (map (\<lambda>x. [word_of_nat (unat x mod 256), word_of_nat (unat x div 256)]) xs)"

text \<open>
  The shape every reachable state has: the pool has \<^verbatim>\<open>SAMPLE_COUNT\<close> entries, and
  the counter is a multiple of 16 that does not exceed \<^verbatim>\<open>SAMPLE_COUNT\<close>.
\<close>

definition state_ok :: "config \<Rightarrow> hwrng_state \<Rightarrow> bool" where
  "state_ok cfg s \<longleftrightarrow>
     length (samples s) = SAMPLE_COUNT cfg \<and>
     samples_consumed s \<le> SAMPLE_COUNT cfg \<and>
     samples_consumed s mod 16 = 0"

text \<open>
  What ties the record to the state in the build without \<^verbatim>\<open>TEST_STATISTICS\<close> and
  \<^verbatim>\<open>IGNORE_HWRNG_FAILURE\<close>: a counter other than 0 means that the pool is the one
  left by the most recent run and that this run passed; and the counter is the
  number of samples handed out (when the constant returned on success is not
  negative).
\<close>

definition audit_ok :: "config \<Rightarrow> hwrng_state \<Rightarrow> audit \<Rightarrow> bool" where
  "audit_ok cfg s a \<longleftrightarrow>
     state_ok cfg s \<and>
     (samples_consumed s = 0 \<or> last_run a = Some (0, samples s)) \<and>
     (entropy_bits cfg < 0 \<or> delivered a = samples_consumed s)"

subsection \<open>Exact fixed-point operations\<close>

text \<open>
  A Q16.16 product is exact when the product of the two numbers is itself a
  Q16.16 number: nothing is rounded away and nothing saturates. A conversion
  \<^verbatim>\<open>F16(x)\<close> is exact when \<open>x\<close> is a Q16.16 number.
\<close>

definition fix16_product_exact :: "fix16 \<Rightarrow> fix16 \<Rightarrow> bool" where
  "fix16_product_exact a b \<longleftrightarrow>
     (sint a * sint b) mod 65536 = 0 \<and>
     - 2147483648 \<le> (sint a * sint b) div 65536 \<and>
     (sint a * sint b) div 65536 \<le> 2147483647"

definition F16_exact :: "real \<Rightarrow> bool" where
  "F16_exact x \<longleftrightarrow>
     x * 65536 = real_of_int \<lfloor>x * 65536\<rfloor> \<and>
     - 2147483648 \<le> \<lfloor>x * 65536\<rfloor> \<and> \<lfloor>x * 65536\<rfloor> \<le> 2147483647"

text \<open>The four products and the conversion that the skewness test performs.\<close>

definition skewness_products_exact :: "config \<Rightarrow> fix16 \<Rightarrow> fix16 \<Rightarrow> bool" where
  "skewness_products_exact cfg variance_v kappa3_v \<longleftrightarrow>
     fix16_product_exact variance_v variance_v \<and>
     fix16_product_exact (fst (fix16_mul variance_v variance_v)) variance_v \<and>
     fix16_product_exact kappa3_v kappa3_v \<and>
     F16_exact (STATTEST_MAX_SKEWNESS cfg * STATTEST_MAX_SKEWNESS cfg) \<and>
     fix16_product_exact (fst (fix16_mul (fst (fix16_mul variance_v variance_v)) variance_v))
       (F16 (STATTEST_MAX_SKEWNESS cfg * STATTEST_MAX_SKEWNESS cfg))"

subsection \<open>The bandwidth estimate in the words of the specification\<close>

text \<open>
  The walk that the specification describes for both edges: the bins are visited
  in the given order, a streak of consecutive bins below the threshold is counted
  and reset to 0 at any other bin, and the walk stops at the first bin at which
  the streak reaches the number of repetitions.
\<close>

fun streak_walk :: "int \<Rightarrow> (nat \<Rightarrow> bool) \<Rightarrow> nat list \<Rightarrow> int \<Rightarrow> nat option" where
  "streak_walk reps below [] streak = None"
| "streak_walk reps below (i # visited) streak =
     (let streak' = (if below i then streak + 1 else 0)
      in if reps \<le> streak' then Some i else streak_walk reps below visited streak')"

text \<open>
  \<open>right - left\<close> for a given peak value and a given bin to start from: the
  threshold is the peak times \<^verbatim>\<open>PSD_BANDWIDTH_THRESHOLD\<close>; the left walk goes from the
  start bin down to bin 0 and gives \<open>i + PSD_THRESHOLD_REPETITIONS\<close> where it stops,
  else 0; the right walk goes from the start bin up to bin \<^verbatim>\<open>FFT_SIZE\<close> and gives
  \<open>i - PSD_THRESHOLD_REPETITIONS\<close> where it stops, else \<^verbatim>\<open>FFT_SIZE\<close>.
\<close>

definition edges_bandwidth :: "config \<Rightarrow> fix16 list \<Rightarrow> fix16 \<Rightarrow> nat \<Rightarrow> int" where
  "edges_bandwidth cfg psd peak start =
     (let threshold = fst (fix16_mul peak (F16 (PSD_BANDWIDTH_THRESHOLD cfg)));
          below = (\<lambda>i. sint (psd ! i) < sint threshold);
          left = (case streak_walk (PSD_THRESHOLD_REPETITIONS cfg) below (rev [0..<start + 1]) 0 of
                    Some i \<Rightarrow> int i + PSD_THRESHOLD_REPETITIONS cfg
                  | None \<Rightarrow> 0);
          right = (case streak_walk (PSD_THRESHOLD_REPETITIONS cfg) below
                          [start..<FFT_SIZE cfg + 1] 0 of
                     Some i \<Rightarrow> int i - PSD_THRESHOLD_REPETITIONS cfg
                   | None \<Rightarrow> int (FFT_SIZE cfg))
      in right - left)"

text \<open>The maximum bin value, and the first bin that holds it.\<close>

definition max_bin_value :: "config \<Rightarrow> fix16 list \<Rightarrow> int" where
  "max_bin_value cfg psd = Max (set (map (\<lambda>k. sint (psd ! k)) [0..<FFT_SIZE cfg + 1]))"

definition argmax_bin :: "config \<Rightarrow> fix16 list \<Rightarrow> nat" where
  "argmax_bin cfg psd =
     (case find (\<lambda>k. sint (psd ! k) = max_bin_value cfg psd) [0..<FFT_SIZE cfg + 1] of
        Some k \<Rightarrow> k
      | None \<Rightarrow> 0)"

text \<open>
  The bandwidth as the specification states it: the peak is the maximum bin value
  and the walks start at its bin.
\<close>

definition bandwidth_as_specified :: "config \<Rightarrow> fix16 list \<Rightarrow> int" where
  "bandwidth_as_specified cfg psd =
     edges_bandwidth cfg psd (psd ! argmax_bin cfg psd) (argmax_bin cfg psd)"

text \<open>
  The same with the peak search of the source, which starts from the value 0 at
  bin 0: when no bin is positive, the peak is 0 and the walks start at bin 0.
\<close>

definition bandwidth_from_zero :: "config \<Rightarrow> fix16 list \<Rightarrow> int" where
  "bandwidth_from_zero cfg psd =
     (if 0 < max_bin_value cfg psd
      then edges_bandwidth cfg psd (psd ! argmax_bin cfg psd) (argmax_bin cfg psd)
      else edges_bandwidth cfg psd fix16_zero 0)"

text \<open>A PSD accumulator in which every bin is negative; the largest one is bin 1.\<close>

definition negative_psd :: "fix16 list" where
  "negative_psd = [- 65536, - 32768, - 65536, - 65536, - 65536, - 65536, - 65536, - 65536, - 65536]"

subsection \<open>A small configuration and environments for concrete runs\<close>

text \<open>
  A configuration with a 32-entry ADC buffer, hence blocks of 16 filtered samples,
  a pool of one block and an FFT size of 8; it passes \<open>config_ok\<close>.
\<close>

definition small_config :: config where
  "small_config = \<lparr>ADC_SAMPLE_BUFFER_SIZE = 32, SAMPLE_COUNT = 16, FFT_SIZE = 8,
     HISTOGRAM_NUM_BINS = 64, SAMPLE_SCALE_DOWN = 1, ENTROPY_BITS_PER_SAMPLE = 1 / 2,
     STATTEST_MIN_MEAN = 31, STATTEST_MAX_MEAN = 33,
     STATTEST_MIN_VARIANCE = 1 / 2, STATTEST_MAX_VARIANCE = 2,
     STATTEST_MAX_SKEWNESS = 1 / 2,
     STATTEST_MIN_KURTOSIS = - 1, STATTEST_MAX_KURTOSIS = 1,
     STATTEST_MIN_ENTROPY = 4,
     PSD_MIN_PEAK = 0, PSD_MAX_PEAK = 1 / 2, PSD_MIN_BANDWIDTH = 1 / 8,
     PSD_BANDWIDTH_THRESHOLD = 1 / 2, PSD_THRESHOLD_REPETITIONS = 2,
     AUTOCORR_START_LAG = 2, AUTOCORR_THRESHOLD = 1 / 4,
     TEST_STATISTICS = False, IGNORE_HWRNG_FAILURE = False\<rparr>"

text \<open>
  Statistics that pass every test of \<open>small_config\<close> (mean 0, variance 1,
  third moment 0, fourth moment 3, entropy 5, a spectral peak at bin 3, a small
  correlogram), and statistics in which every error flag is raised.
\<close>

definition good_statistics :: statistics where
  "good_statistics = \<lparr>
     calculateCentralMoment = (\<lambda>about power.
        if power = 1 then (0, False) else if power = 2 then (65536, False)
        else if power = 3 then (0, False) else (196608, False)),
     estimateEntropy = (327680, False),
     histogram_overflow_occurred = False,
     psd_accumulator = [65536, 65536, 131072, 262144, 131072, 65536, 65536, 65536, 65536],
     psd_accumulator_error_occurred = False,
     calculateAutoCorrelation = (replicate 9 \<lparr>cf_real = 100, cf_imag = 0\<rparr>, False)\<rparr>"

definition overflowed_statistics :: statistics where
  "overflowed_statistics = \<lparr>
     calculateCentralMoment = (\<lambda>about power.
        if power = 1 then (0, False) else if power = 2 then (65536, True)
        else if power = 3 then (0, False) else (196608, False)),
     estimateEntropy = (327680, True),
     histogram_overflow_occurred = True,
     psd_accumulator = [65536, 65536, 131072, 262144, 131072, 65536, 65536, 65536, 65536],
     psd_accumulator_error_occurred = True,
     calculateAutoCorrelation = (replicate 9 \<lparr>cf_real = 100, cf_imag = 0\<rparr>, True)\<rparr>"

text \<open>
  Statistics like \<open>good_statistics\<close>, but the correlogram holds the least
  \<^verbatim>\<open>fix16_t\<close> value \<open>- 2^31\<close> at lag 2; no error is reported.
\<close>

definition least_value_statistics :: statistics where
  "least_value_statistics = good_statistics\<lparr>calculateAutoCorrelation :=
     ((replicate 9 \<lparr>cf_real = 100, cf_imag = 0\<rparr>)[2 := \<lparr>cf_real = - 2147483648, cf_imag = 0\<rparr>],
      False)\<rparr>"

text \<open>An ADC that delivers the ramp 500, 501, ..., 531 at every acquisition.\<close>

definition ramp :: "sample list" where
  "ramp = map word_of_nat [500..<532]"

text \<open>The pool that the filter makes of the ramp.\<close>

definition small_pool :: "sample list" where
  "small_pool = [510, 500, 504, 506, 508, 510, 512, 514, 516, 518, 520, 522, 524, 526, 529, 530]"

definition good_environment :: environment where
  "good_environment = \<lparr>adc_fill = (\<lambda>k. Some ramp), statistics_of = (\<lambda>pool. good_statistics)\<rparr>"

definition failing_environment :: environment where
  "failing_environment =
     \<lparr>adc_fill = (\<lambda>k. Some ramp), statistics_of = (\<lambda>pool. overflowed_statistics)\<rparr>"

section \<open>Properties\<close>

subsection \<open>Arithmetic of the rounding shift\<close>

lemma int_round_half_up:
  fixes x :: int
  shows "x div 65536 + (x div 32768) mod 2 = (x + 32768) div 65536"
proof -
  define a where "a = x div 32768"
  have e: "(65536::int) = 32768 * 2" by simp
  have 1: "x div 65536 = a div 2"
    unfolding a_def e by (rule zdiv_zmult2_eq) simp
  have 2: "(x + 32768) div 32768 = a + 1"
    unfolding a_def by simp
  have "(x + 32768) div 65536 = ((x + 32768) div 32768) div 2"
    unfolding e by (rule zdiv_zmult2_eq) simp
  hence 3: "(x + 32768) div 65536 = (a + 1) div 2"
    by (simp only: 2)
  have "a div 2 + a mod 2 = (a + 1) div 2" by presburger
  thus ?thesis by (simp only: 1 3 a_def[symmetric])
qed

lemma odd_sint32: "odd (sint (w::32 word)) \<longleftrightarrow> odd w"
  using bit_sint_iff[of w 0] by (simp add: bit_0)

lemma sint_and_1: "sint ((w::32 word) AND 1) = sint w mod 2"
  by (simp add: and_one_eq mod2_eq_if odd_sint32)

lemma fir_round_sint: "sint (fir_round s) = (sint s + 32768) div 65536"
proof -
  let ?a = "signed_drop_bit 16 s" and ?b = "signed_drop_bit 15 s AND (1::32 word)"
  have a: "sint ?a = sint s div 65536"
    by (simp add: sint_signed_drop_bit_eq drop_bit_eq_div)
  have b: "sint ?b = (sint s div 32768) mod 2"
    by (simp add: sint_and_1 sint_signed_drop_bit_eq drop_bit_eq_div)
  have r: "- (2^31) \<le> sint s" "sint s < 2^31"
    using sint_ge[of s] sint_lt[of s] by simp_all
  have a1: "- 32768 \<le> sint s div 65536" "sint s div 65536 < 32768"
    using r by simp_all
  have b1: "0 \<le> (sint s div 32768) mod 2" "(sint s div 32768) mod 2 < 2"
    by simp_all
  have "sint (?a + ?b) = signed_take_bit 31 (sint ?a + sint ?b)"
    by (simp add: sint_word_add)
  also have "\<dots> = sint ?a + sint ?b"
    unfolding a b by (rule signed_take_bit_int_eq_self) (use a1 b1 in simp_all)
  finally have "sint (?a + ?b) = sint ?a + sint ?b" .
  thus ?thesis unfolding fir_round_def a b by (simp only: int_round_half_up)
qed

subsection \<open>Indices into the circular ADC buffer\<close>

lemma is_power_of_twoD:
  assumes "is_power_of_two n"
  obtains k where "k < 32" "n = 2 ^ k"
proof -
  from assms have "n \<in> (\<lambda>k. 2 ^ k) ` {0..<32}" by (simp add: is_power_of_two_def)
  then obtain k where "k \<in> {0..<32::nat}" "n = 2 ^ k" by blast
  thus ?thesis using that by simp
qed

lemma pow2_dvd_word_size:
  assumes "k < 32" shows "(2::int) ^ k dvd 4294967296"
proof -
  have "(2::int) ^ k dvd 2 ^ 32" by (rule le_imp_power_dvd) (use assms in simp)
  thus ?thesis by simp
qed

lemma uint_and_pow2_mask:
  assumes "k < 32"
  shows "uint ((x::32 word) AND (word_of_nat (2 ^ k) - 1)) = uint x mod 2 ^ k"
proof -
  have "(word_of_nat (2 ^ k) :: 32 word) - 1 = mask k"
    by (simp add: mask_eq_decr_exp)
  hence "x AND (word_of_nat (2 ^ k) - 1) = take_bit k x"
    by (simp add: take_bit_eq_mask)
  hence "uint (x AND (word_of_nat (2 ^ k) - 1)) = take_bit k (uint x)"
    by (simp only: unsigned_take_bit_eq)
  thus ?thesis by (simp only: take_bit_eq_mod)
qed

lemma uint_word_of_nat32: "uint (word_of_nat n :: 32 word) = int n mod 4294967296"
  by (simp add: unsigned_of_nat take_bit_eq_mod of_nat_mod)

lemma fir_index_circular:
  assumes p: "is_power_of_two (ADC_SAMPLE_BUFFER_SIZE cfg)"
  shows "uint (fir_index cfg (fir_base_index cfg (word_of_nat j)) (word_of_nat i))
           = (int j * int OVERSAMPLE_RATIO - int FILTER_HALF_ORDER + int i)
               mod int (ADC_SAMPLE_BUFFER_SIZE cfg)"
proof -
  from p obtain k where k: "k < 32" and n: "ADC_SAMPLE_BUFFER_SIZE cfg = 2 ^ k"
    by (rule is_power_of_twoD)
  note d = pow2_dvd_word_size[OF k]
  let ?m = "word_of_nat (2 ^ k) - 1 :: 32 word"
  let ?a = "word_of_nat j * 2 - 8 :: 32 word"
  have a: "uint ?a mod 2 ^ k = (int j * 2 - 8) mod 2 ^ k"
  proof -
    have "uint ?a = (int j * 2 - 8) mod 4294967296"
      by (simp add: uint_word_ariths uint_word_of_nat32 mod_simps)
    thus ?thesis using d by (simp add: mod_mod_cancel)
  qed
  have i: "uint (word_of_nat i :: 32 word) mod 2 ^ k = int i mod 2 ^ k"
    using d by (simp add: uint_word_of_nat32 mod_mod_cancel)
  have "uint (((?a AND ?m) + word_of_nat i) AND ?m) = uint ((?a AND ?m) + word_of_nat i) mod 2 ^ k"
    by (rule uint_and_pow2_mask[OF k])
  also have "\<dots> = ((uint (?a AND ?m) + uint (word_of_nat i :: 32 word)) mod 4294967296) mod 2 ^ k"
    by (simp add: uint_word_ariths(1))
  also have "\<dots> = ((uint ?a mod 2 ^ k + uint (word_of_nat i :: 32 word)) mod 4294967296) mod 2 ^ k"
    by (simp only: uint_and_pow2_mask[OF k])
  also have "\<dots> = (uint ?a mod 2 ^ k + uint (word_of_nat i :: 32 word)) mod 2 ^ k"
    using d by (simp add: mod_mod_cancel)
  also have "\<dots> = (uint ?a mod 2 ^ k + uint (word_of_nat i :: 32 word) mod 2 ^ k) mod 2 ^ k"
    by (simp add: mod_simps)
  also have "\<dots> = ((int j * 2 - 8) mod 2 ^ k + int i mod 2 ^ k) mod 2 ^ k"
    by (simp only: a i)
  also have "\<dots> = (int j * 2 - 8 + int i) mod 2 ^ k"
    by (simp add: mod_simps)
  finally show ?thesis
    by (simp add: fir_index_def fir_base_index_def n OVERSAMPLE_RATIO_def FILTER_HALF_ORDER_def)
qed

lemma fir_index_less:
  assumes p: "is_power_of_two (ADC_SAMPLE_BUFFER_SIZE cfg)"
  shows "unat (fir_index cfg b i) < ADC_SAMPLE_BUFFER_SIZE cfg"
proof -
  from p obtain k where k: "k < 32" and n: "ADC_SAMPLE_BUFFER_SIZE cfg = 2 ^ k"
    by (rule is_power_of_twoD)
  have "uint (fir_index cfg b i) = uint (b + i) mod 2 ^ k"
    unfolding fir_index_def n by (rule uint_and_pow2_mask[OF k])
  hence "uint (fir_index cfg b i) < 2 ^ k" by simp
  hence "int (unat (fir_index cfg b i)) < int (2 ^ k)" by (simp add: uint_nat del: of_nat_unat)
  thus ?thesis unfolding n by linarith
qed

text \<open>
  C10. Let the ADC buffer size be a power of two. For every output index
  \<open>j < DECIMATED_SAMPLE_BUFFER_SIZE\<close> and every tap \<open>i < FILTER_ORDER\<close>, the index at
  which \<^verbatim>\<open>firFilter\<close> reads the ADC buffer, computed from the base index that
  \<^verbatim>\<open>fillAndTestSamplesArray\<close> passes for \<open>j\<close>, is below
  \<^verbatim>\<open>ADC_SAMPLE_BUFFER_SIZE\<close>; it is \<open>j \<cdot> OVERSAMPLE_RATIO - FILTER_HALF_ORDER + i\<close>
  reduced modulo the buffer size, also where that number is negative or reaches
  past the end of the buffer.
\<close>

theorem fir_reads_in_bounds:
  assumes "is_power_of_two (ADC_SAMPLE_BUFFER_SIZE cfg)"
    and "j < DECIMATED_SAMPLE_BUFFER_SIZE cfg"
    and "i < FILTER_ORDER"
  shows "unat (fir_index cfg (fir_base_index cfg (word_of_nat j)) (word_of_nat i))
           < ADC_SAMPLE_BUFFER_SIZE cfg \<and>
         int (unat (fir_index cfg (fir_base_index cfg (word_of_nat j)) (word_of_nat i)))
           = (int j * int OVERSAMPLE_RATIO - int FILTER_HALF_ORDER + int i)
               mod int (ADC_SAMPLE_BUFFER_SIZE cfg)"
  using fir_index_less[OF assms(1)] fir_index_circular[OF assms(1), of j i]
  by (simp add: uint_nat del: of_nat_unat)

theorem fir_reads_in_bounds_witness:
  "is_power_of_two (ADC_SAMPLE_BUFFER_SIZE small_config) \<and>
   (1::nat) < DECIMATED_SAMPLE_BUFFER_SIZE small_config \<and> (3::nat) < FILTER_ORDER \<and>
   unat (fir_index small_config (fir_base_index small_config (word_of_nat 1)) (word_of_nat 3)) = 29 \<and>
   unat (fir_index small_config (fir_base_index small_config (word_of_nat 1)) (word_of_nat 3))
     < ADC_SAMPLE_BUFFER_SIZE small_config"
proof -
  have "(32::nat) \<in> (\<lambda>k. 2 ^ k) ` {0..<32}"
    by (rule image_eqI[where x = 5]) simp_all
  hence p: "is_power_of_two (ADC_SAMPLE_BUFFER_SIZE small_config)"
    by (simp add: is_power_of_two_def small_config_def)
  have j: "(1::nat) < DECIMATED_SAMPLE_BUFFER_SIZE small_config"
    by (simp add: small_config_def DECIMATED_SAMPLE_BUFFER_SIZE_def OVERSAMPLE_RATIO_def)
  have i: "(3::nat) < FILTER_ORDER"
    by (simp add: FILTER_ORDER_def FILTER_HALF_ORDER_def)
  have v: "unat (fir_index small_config (fir_base_index small_config (word_of_nat 1)) (word_of_nat 3)) = 29"
    by (simp add: fir_index_def fir_base_index_def small_config_def OVERSAMPLE_RATIO_def
        FILTER_HALF_ORDER_def)
  from fir_reads_in_bounds[OF p j i] p j i v show ?thesis by simp
qed

subsection \<open>Rounding of the filter output\<close>

text \<open>
  C4. The value returned by \<^verbatim>\<open>firFilter\<close>, \<^verbatim>\<open>(sum >> 16) + ((sum >> 15) & 1)\<close>, read as a
  signed 32-bit number, is \<open>\<lfloor>(sum + 2^15) / 2^16\<rfloor>\<close>: the accumulator divided by
  \<open>2^16\<close> and rounded half up. This holds for every 32-bit accumulator value,
  negative ones included, and so for the one the convolution produces.
\<close>

theorem firFilter_rounds_half_up:
  "sint (fir_round acc) = (sint acc + 2 ^ 15) div 2 ^ 16 \<and>
   sint (firFilter cfg samples_in base_index coefficients order) =
     (sint (fir_convolution cfg samples_in base_index coefficients order) + 2 ^ 15) div 2 ^ 16 \<and>
   real_of_int (sint (fir_round acc)) = \<lfloor>real_of_int (sint acc) / 2 ^ 16 + 1 / 2\<rfloor>"
proof -
  have 1: "sint (fir_round acc) = (sint acc + 2 ^ 15) div 2 ^ 16" for acc
    using fir_round_sint[of acc] by simp
  have "real_of_int (sint acc) / 2 ^ 16 + 1 / 2 = real_of_int (sint acc + 2 ^ 15) / real_of_int (2 ^ 16)"
    by (simp add: field_simps)
  hence "\<lfloor>real_of_int (sint acc) / 2 ^ 16 + 1 / 2\<rfloor> = (sint acc + 2 ^ 15) div 2 ^ 16"
    by (simp only: floor_divide_of_int_eq)
  with 1 show ?thesis by (simp only: firFilter_def)
qed

subsection \<open>Arithmetic errors and the verdict\<close>

lemma fail_if_keeps: "t AND m = m \<Longrightarrow> fail_if c m' t AND m = m"
proof -
  assume a: "t AND m = m"
  have "(t OR m') AND m = (t AND m) OR (m' AND m)"
    by (simp add: bit.conj_disj_distrib2)
  also have "\<dots> = m" unfolding a by (simp add: bit_eq_iff bit_or_iff bit_and_iff)
  finally show ?thesis using a by (simp add: fail_if_def)
qed

lemma fail_if_sets: "c \<Longrightarrow> fail_if c m t AND m = m"
  by (simp add: fail_if_def bit_eq_iff bit_or_iff bit_and_iff)

lemma fail_if_sets_part: "c \<Longrightarrow> m' AND m = m \<Longrightarrow> fail_if c m' t AND m = m"
proof -
  assume c: c and a: "m' AND m = m"
  have "(t OR m') AND m = (t AND m) OR (m' AND m)"
    by (simp add: bit.conj_disj_distrib2)
  also have "\<dots> = m" unfolding a by (simp add: bit_eq_iff bit_or_iff bit_and_iff)
  finally show ?thesis using c by (simp add: fail_if_def)
qed

lemma or_keeps_left: "(a::32 word) AND m = m \<Longrightarrow> (a OR b) AND m = m"
  by (simp add: bit_eq_iff bit_or_iff bit_and_iff) blast

lemma or_keeps_right: "(b::32 word) AND m = m \<Longrightarrow> (a OR b) AND m = m"
  by (simp add: bit_eq_iff bit_or_iff bit_and_iff) blast

lemma histogram_moment_overflow:
  assumes "moment_error_occurred (histogram_statistics st) \<or> histogram_overflow_occurred st"
  shows "fst (histogramTestsFailed cfg st) AND 15 = 15"
  unfolding histogramTestsFailed_def Let_def fst_conv
  by (intro fail_if_keeps fail_if_sets assms)

lemma histogram_entropy_overflow:
  assumes "entropy_error_occurred (histogram_statistics st)"
  shows "fst (histogramTestsFailed cfg st) AND 128 = 128"
  unfolding histogramTestsFailed_def Let_def fst_conv
  by (intro fail_if_sets assms)

lemma fft_psd_overflow:
  assumes "psd_accumulator_error_occurred st"
  shows "fftTestsFailed cfg st v AND 48 = 48"
  unfolding fftTestsFailed_def Let_def case_prod_beta
  by (intro fail_if_keeps fail_if_sets assms)

lemma run_verdict_eq:
  "run_verdict cfg st =
     fst (histogramTestsFailed cfg st) OR fftTestsFailed cfg st (snd (histogramTestsFailed cfg st))"
  by (simp add: run_verdict_def case_prod_beta)

text \<open>
  C7. In every qualification run: if the sticky fixed-point flag was raised during
  the four central-moment computations, or the histogram overflow flag is set,
  bits 0 to 3 of the verdict are all set; if the sticky flag was raised during the
  entropy estimate, bit 7 is set; if the overflow flag of the PSD accumulator is
  set, bits 4 and 5 are both set.
\<close>

theorem overflow_sets_verdict_bits:
  "(moment_error_occurred (histogram_statistics st) \<or> histogram_overflow_occurred st
      \<longrightarrow> run_verdict cfg st AND 15 = 15) \<and>
   (entropy_error_occurred (histogram_statistics st) \<longrightarrow> run_verdict cfg st AND 128 = 128) \<and>
   (psd_accumulator_error_occurred st \<longrightarrow> run_verdict cfg st AND 48 = 48)"
  unfolding run_verdict_eq
  by (intro conjI impI or_keeps_left or_keeps_right
      histogram_moment_overflow histogram_entropy_overflow fft_psd_overflow)

lemma moment_error_occurred_iff:
  "moment_error_occurred (histogram_statistics st) \<longleftrightarrow>
     snd (calculateCentralMoment st fix16_zero 1) \<or>
     snd (calculateCentralMoment st (mean (histogram_statistics st)) 2) \<or>
     snd (calculateCentralMoment st (mean (histogram_statistics st)) 3) \<or>
     snd (calculateCentralMoment st (mean (histogram_statistics st)) 4)"
  by (simp add: histogram_statistics_def Let_def case_prod_beta)

lemma entropy_error_occurred_iff:
  "entropy_error_occurred (histogram_statistics st) \<longleftrightarrow> snd (estimateEntropy st)"
  by (simp add: histogram_statistics_def Let_def case_prod_beta)

theorem overflow_sets_verdict_bits_witness:
  "moment_error_occurred (histogram_statistics overflowed_statistics) \<and>
   entropy_error_occurred (histogram_statistics overflowed_statistics) \<and>
   psd_accumulator_error_occurred overflowed_statistics \<and>
   run_verdict small_config overflowed_statistics AND 15 = 15 \<and>
   run_verdict small_config overflowed_statistics AND 128 = 128 \<and>
   run_verdict small_config overflowed_statistics AND 48 = 48"
proof -
  have 1: "moment_error_occurred (histogram_statistics overflowed_statistics)"
    by (simp add: moment_error_occurred_iff overflowed_statistics_def)
  have 2: "entropy_error_occurred (histogram_statistics overflowed_statistics)"
    by (simp add: entropy_error_occurred_iff overflowed_statistics_def)
  have 3: "psd_accumulator_error_occurred overflowed_statistics"
    by (simp add: overflowed_statistics_def)
  from overflow_sets_verdict_bits[of overflowed_statistics small_config] 1 2 3
  show ?thesis by blast
qed

subsection \<open>The bytes of a sample\<close>

lemma unat_sample_less: "unat (x::16 word) < 65536"
  using unsigned_less[of x, where ?'a = nat] by simp

lemma unat_ucast_16_32: "unat (ucast (x::16 word) :: 32 word) = unat x"
proof -
  have "unat (ucast x :: 32 word) = take_bit LENGTH(32) (unat x)"
    by (rule unsigned_ucast_eq)
  also have "\<dots> = unat x"
    by (rule take_bit_nat_eq_self) (use unat_sample_less[of x] in simp)
  finally show ?thesis .
qed

lemma unat_low_byte: "unat (ucast (ucast (x::16 word) :: 32 word) :: 8 word) = unat x mod 256"
proof -
  have "unat (ucast (ucast x :: 32 word) :: 8 word) = take_bit LENGTH(8) (unat (ucast x :: 32 word))"
    by (rule unsigned_ucast_eq)
  also have "\<dots> = take_bit 8 (unat x)" by (simp only: unat_ucast_16_32) simp
  finally show ?thesis by (simp only: take_bit_eq_mod) simp
qed

lemma unat_high_byte: "unat (ucast (drop_bit 8 (ucast (x::16 word) :: 32 word)) :: 8 word) = unat x div 256"
proof -
  have d: "unat x div 256 < 256" using unat_sample_less[of x] by simp
  have "unat (ucast (drop_bit 8 (ucast x :: 32 word)) :: 8 word)
          = take_bit LENGTH(8) (unat (drop_bit 8 (ucast x :: 32 word)))"
    by (rule unsigned_ucast_eq)
  also have "unat (drop_bit 8 (ucast x :: 32 word)) = drop_bit 8 (unat (ucast x :: 32 word))"
    by (rule unat_drop_bit_eq)
  also have "\<dots> = unat x div 256" by (simp only: unat_ucast_16_32 drop_bit_eq_div) simp
  finally show ?thesis using d by (simp add: take_bit_eq_mod)
qed

lemma low_byte: "(ucast (ucast (x::16 word) :: 32 word) :: 8 word) = word_of_nat (unat x mod 256)"
  by (rule word_unat_eq_iff[THEN iffD2]) (simp only: unat_low_byte unat_of_nat, simp)

lemma high_byte: "(ucast (drop_bit 8 (ucast (x::16 word) :: 32 word)) :: 8 word) = word_of_nat (unat x div 256)"
proof -
  have d: "unat x div 256 < 256" using unat_sample_less[of x] by simp
  show ?thesis
   by (rule word_unat_eq_iff[THEN iffD2]) (simp only: unat_high_byte unat_of_nat, simp add: d)
qed

subsection \<open>The refill and the copy loop\<close>

lemma length_filter_block_fold:
  "length (fold (filter_block_step cfg adc i) js pool) = length pool"
  by (induction js arbitrary: pool) (simp_all add: filter_block_step_def Let_def)

lemma length_filter_block: "length (filter_block cfg adc i pool) = length pool"
  by (simp add: filter_block_def length_filter_block_fold)

lemma length_fill_samples:
  "fill_samples cfg adc i pool = Some pool' \<Longrightarrow> length pool' = length pool"
proof (induction cfg adc i pool rule: fill_samples.induct)
  case (1 cfg adc i pool)
  show ?case
  proof (cases "i < SAMPLE_COUNT cfg \<and> 0 < DECIMATED_SAMPLE_BUFFER_SIZE cfg")
    case True
    with "1.prems" obtain buf where
      b: "adc (i div DECIMATED_SAMPLE_BUFFER_SIZE cfg) = Some buf" and
      r: "fill_samples cfg adc (i + DECIMATED_SAMPLE_BUFFER_SIZE cfg) (filter_block cfg buf i pool)
            = Some pool'"
      by (subst (asm) fill_samples.simps) (auto split: option.splits)
    from "1.IH"[OF True b r] show ?thesis by (simp add: length_filter_block)
  next
    case False
    with "1.prems" show ?thesis by (subst (asm) fill_samples.simps) auto
  qed
qed

text \<open>The copy loop, one step at a time.\<close>

lemma copy_fold:
  assumes "n \<le> 16" and "length buffer = 32"
    and "samples_consumed s + n \<le> length (samples s)" and "length (samples s) < 2 ^ 32"
  shows "\<exists>buffer'. fold copy_step [0..<n] (buffer, s)
            = (buffer', s\<lparr>samples_consumed := samples_consumed s + n\<rparr>) \<and>
          length buffer' = 32 \<and>
          (\<forall>i<n. buffer' ! (2 * i) = word_of_nat (unat (samples s ! (samples_consumed s + i)) mod 256) \<and>
                 buffer' ! (2 * i + 1) = word_of_nat (unat (samples s ! (samples_consumed s + i)) div 256)) \<and>
          (\<forall>k\<ge>2 * n. buffer' ! k = buffer ! k)"
  using assms
proof (induction n)
  case 0
  then show ?case by simp
next
  case (Suc n)
  then obtain b where
    f: "fold copy_step [0..<n] (buffer, s) = (b, s\<lparr>samples_consumed := samples_consumed s + n\<rparr>)"
    and l: "length b = 32"
    and v: "\<forall>i<n. b ! (2 * i) = word_of_nat (unat (samples s ! (samples_consumed s + i)) mod 256) \<and>
                 b ! (2 * i + 1) = word_of_nat (unat (samples s ! (samples_consumed s + i)) div 256)"
    and r: "\<forall>k\<ge>2 * n. b ! k = buffer ! k"
    by auto
  let ?x = "samples s ! (samples_consumed s + n)"
  let ?b = "b[n * 2 := word_of_nat (unat ?x mod 256), n * 2 + 1 := word_of_nat (unat ?x div 256)]"
  have m: "(samples_consumed s + n + 1) mod 2 ^ 32 = samples_consumed s + Suc n"
    using Suc.prems by simp
  have step: "fold copy_step [0..<Suc n] (buffer, s)
                = (?b, s\<lparr>samples_consumed := samples_consumed s + Suc n\<rparr>)"
    using m by (simp add: f copy_step_def Let_def low_byte high_byte)
  have n2: "n * 2 + 1 < 32" using Suc.prems by simp
  have "\<forall>i<Suc n. ?b ! (2 * i) = word_of_nat (unat (samples s ! (samples_consumed s + i)) mod 256) \<and>
                 ?b ! (2 * i + 1) = word_of_nat (unat (samples s ! (samples_consumed s + i)) div 256)"
  proof (intro allI impI)
    fix i assume "i < Suc n"
    then consider "i < n" | "i = n" by linarith
    then show "?b ! (2 * i) = word_of_nat (unat (samples s ! (samples_consumed s + i)) mod 256) \<and>
                 ?b ! (2 * i + 1) = word_of_nat (unat (samples s ! (samples_consumed s + i)) div 256)"
    proof cases
      case 1
      then have "2 * i \<noteq> n * 2" "2 * i \<noteq> n * 2 + 1" "2 * i + 1 \<noteq> n * 2" "2 * i + 1 \<noteq> n * 2 + 1"
        by presburger+
      with v 1 show ?thesis by (simp add: nth_list_update)
    next
      case 2
      with l n2 show ?thesis by (simp add: nth_list_update mult.commute)
    qed
  qed
  moreover have "\<forall>k\<ge>2 * Suc n. ?b ! k = buffer ! k"
    using r by (simp add: nth_list_update)
  moreover have "length ?b = 32" using l by simp
  ultimately show ?case using step by blast
qed

lemma nth_sample_bytes:
  assumes "i < length xs"
  shows "sample_bytes xs ! (2 * i) = word_of_nat (unat (xs ! i) mod 256) \<and>
         sample_bytes xs ! (2 * i + 1) = word_of_nat (unat (xs ! i) div 256)"
  using assms
proof (induction xs arbitrary: i)
  case Nil
  then show ?case by simp
next
  case (Cons x xs)
  show ?case
  proof (cases i)
    case 0
    then show ?thesis by (simp add: sample_bytes_def)
  next
    case (Suc j)
    with Cons.prems have "j < length xs" by simp
    from Cons.IH[OF this] Suc show ?thesis by (simp add: sample_bytes_def)
  qed
qed

lemma length_sample_bytes: "length (sample_bytes xs) = 2 * length xs"
  by (induction xs) (simp_all add: sample_bytes_def)

lemma copy_loop_result:
  assumes "length buffer = 32"
    and "samples_consumed s + 16 \<le> length (samples s)" and "length (samples s) < 2 ^ 32"
  shows "copy_loop buffer s =
           (sample_bytes (take 16 (drop (samples_consumed s) (samples s))),
            s\<lparr>samples_consumed := samples_consumed s + 16\<rparr>)"
proof -
  from copy_fold[of 16 buffer s] assms obtain b where
    f: "fold copy_step [0..<16] (buffer, s) = (b, s\<lparr>samples_consumed := samples_consumed s + 16\<rparr>)"
    and l: "length b = 32"
    and v: "\<forall>i<16. b ! (2 * i) = word_of_nat (unat (samples s ! (samples_consumed s + i)) mod 256) \<and>
                 b ! (2 * i + 1) = word_of_nat (unat (samples s ! (samples_consumed s + i)) div 256)"
    by auto
  let ?xs = "take 16 (drop (samples_consumed s) (samples s))"
  have lx: "length ?xs = 16" using assms by simp
  have "b = sample_bytes ?xs"
  proof (rule nth_equalityI)
    show "length b = length (sample_bytes ?xs)" using l lx by (simp add: length_sample_bytes)
  next
    fix k assume "k < length b"
    hence k: "k div 2 < 16" using l by simp
    have x: "?xs ! (k div 2) = samples s ! (samples_consumed s + k div 2)"
      using k assms by simp
    from k have kx: "k div 2 < length ?xs" using lx by simp
    have "k = 2 * (k div 2) \<or> k = 2 * (k div 2) + 1" by presburger
    then consider "k = 2 * (k div 2)" | "k = 2 * (k div 2) + 1" by blast
    then show "b ! k = sample_bytes ?xs ! k"
    proof cases
      case 1
      have "b ! (2 * (k div 2)) = sample_bytes ?xs ! (2 * (k div 2))"
        using v k nth_sample_bytes[OF kx] x by simp
      with 1 show ?thesis by simp
    next
      case 2
      have "b ! (2 * (k div 2) + 1) = sample_bytes ?xs ! (2 * (k div 2) + 1)"
        using v k nth_sample_bytes[OF kx] x by simp
      with 2 show ?thesis by simp
    qed
  qed
  with f show ?thesis by (simp add: copy_loop_def)
qed

lemma config_ok_multiple_of_16:
  assumes "config_ok cfg"
  shows "SAMPLE_COUNT cfg mod 16 = 0" and "16 \<le> SAMPLE_COUNT cfg"
proof -
  from assms have d: "16 dvd DECIMATED_SAMPLE_BUFFER_SIZE cfg"
    and c: "DECIMATED_SAMPLE_BUFFER_SIZE cfg dvd SAMPLE_COUNT cfg"
    and p: "0 < SAMPLE_COUNT cfg"
    by (simp_all add: config_ok_def dvd_eq_mod_eq_0)
  from d c have "16 dvd SAMPLE_COUNT cfg" by (rule dvd_trans)
  thus "SAMPLE_COUNT cfg mod 16 = 0" by (simp add: dvd_eq_mod_eq_0)
  from \<open>16 dvd SAMPLE_COUNT cfg\<close> p show "16 \<le> SAMPLE_COUNT cfg" by (rule dvd_imp_le)
qed

lemma next_block_fits:
  fixes c n :: nat
  assumes "c mod 16 = 0" and "n mod 16 = 0" and "c < n"
  shows "c + 16 \<le> n"
proof -
  from assms(1,2) obtain k m where k: "c = 16 * k" and m: "n = 16 * m"
    by (auto simp: mod_eq_0_iff_dvd elim!: dvdE)
  with assms(3) have "k < m" by simp
  hence "k + 1 \<le> m" by simp
  hence "16 * (k + 1) \<le> 16 * m" by (rule mult_le_mono2)
  thus ?thesis unfolding k m by simp
qed

lemma state_ok_initial: "config_ok cfg \<Longrightarrow> state_ok cfg (initial_state cfg)"
  by (simp add: state_ok_def initial_state_def)

text \<open>The first half of the consumer operation, case by case.\<close>

lemma refill_phase_no_run:
  "\<not> needs_refill cfg s \<Longrightarrow> refill_phase cfg env s = Some (Inr (False, s))"
  by (simp add: refill_phase_def)

lemma refill_phase_stuck:
  "needs_refill cfg s \<Longrightarrow> fill_samples cfg (adc_fill env) 0 (samples s) = None \<Longrightarrow>
   refill_phase cfg env s = None"
  by (simp add: refill_phase_def fillAndTestSamplesArray_def)

lemma refill_phase_run:
  "needs_refill cfg s \<Longrightarrow> fill_samples cfg (adc_fill env) 0 (samples s) = Some pool \<Longrightarrow>
   refill_phase cfg env s =
     (if run_verdict cfg (statistics_of env pool) \<noteq> 0 \<and> \<not> IGNORE_HWRNG_FAILURE cfg
      then (if TEST_STATISTICS cfg
            then Some (Inr (True, \<lparr>samples = pool, samples_consumed = 0\<rparr>))
            else Some (Inl \<lparr>samples = pool, samples_consumed = 0\<rparr>))
      else Some (Inr (False, \<lparr>samples = pool, samples_consumed = 0\<rparr>)))"
  by (simp add: refill_phase_def fillAndTestSamplesArray_def Let_def)

lemma refill_phase_Inr:
  assumes c: "config_ok cfg" and s: "state_ok cfg s"
    and r: "refill_phase cfg env s = Some (Inr (tests_failed, s1))"
  shows "length (samples s1) = SAMPLE_COUNT cfg \<and> samples_consumed s1 mod 16 = 0 \<and>
         samples_consumed s1 + 16 \<le> SAMPLE_COUNT cfg"
proof (cases "needs_refill cfg s")
  case True
  show ?thesis
  proof (cases "fill_samples cfg (adc_fill env) 0 (samples s)")
    case None
    from refill_phase_stuck[OF True None] r show ?thesis by simp
  next
    case (Some pool)
    from length_fill_samples[OF Some] s have l: "length pool = SAMPLE_COUNT cfg"
      by (simp add: state_ok_def)
    from r have "s1 = \<lparr>samples = pool, samples_consumed = 0\<rparr>"
      unfolding refill_phase_run[OF True Some] by (simp split: if_splits)
    with l config_ok_multiple_of_16(2)[OF c] show ?thesis by simp
  qed
next
  case False
  with r have e: "s1 = s" by (simp add: refill_phase_no_run)
  from False have "0 < samples_consumed s" "samples_consumed s < SAMPLE_COUNT cfg"
    by (simp_all add: needs_refill_def)
  moreover from s have m: "samples_consumed s mod 16 = 0" and l: "length (samples s) = SAMPLE_COUNT cfg"
    by (simp_all add: state_ok_def)
  ultimately have "samples_consumed s + 16 \<le> SAMPLE_COUNT cfg"
    using config_ok_multiple_of_16(1)[OF c] by (intro next_block_fits)
  with m l show ?thesis unfolding e by simp
qed

lemma refill_phase_Inl:
  assumes s: "state_ok cfg s" and r: "refill_phase cfg env s = Some (Inl s1)"
  shows "needs_refill cfg s \<and> \<not> TEST_STATISTICS cfg \<and> \<not> IGNORE_HWRNG_FAILURE cfg \<and>
         (\<exists>pool. fill_samples cfg (adc_fill env) 0 (samples s) = Some pool \<and>
            s1 = \<lparr>samples = pool, samples_consumed = 0\<rparr> \<and> length pool = SAMPLE_COUNT cfg \<and>
            run_verdict cfg (statistics_of env pool) \<noteq> 0)"
proof -
  have n: "needs_refill cfg s"
  proof (rule ccontr)
    assume "\<not> needs_refill cfg s"
    from refill_phase_no_run[OF this] r show False by simp
  qed
  show ?thesis
  proof (cases "fill_samples cfg (adc_fill env) 0 (samples s)")
    case None
    from refill_phase_stuck[OF n None] r show ?thesis by simp
  next
    case (Some pool)
    from length_fill_samples[OF Some] s have l: "length pool = SAMPLE_COUNT cfg"
      by (simp add: state_ok_def)
    from r have "run_verdict cfg (statistics_of env pool) \<noteq> 0 \<and> \<not> IGNORE_HWRNG_FAILURE cfg \<and>
        \<not> TEST_STATISTICS cfg \<and> s1 = \<lparr>samples = pool, samples_consumed = 0\<rparr>"
      unfolding refill_phase_run[OF n Some] by (simp split: if_splits)
    with n l Some show ?thesis by simp
  qed
qed

lemma copy_phase_result:
  assumes "length buffer = 32"
    and "samples_consumed s + 16 \<le> length (samples s)" and "length (samples s) < 2 ^ 32"
  shows "copy_phase cfg tests_failed s buffer =
           (if tests_failed then - 1 else entropy_bits cfg,
            sample_bytes (take 16 (drop (samples_consumed s) (samples s))),
            s\<lparr>samples_consumed := samples_consumed s + 16\<rparr>)"
  by (simp add: copy_phase_def copy_loop_result[OF assms])

lemma snd_copy_step:
  "snd (copy_step i bs) = (snd bs)\<lparr>samples_consumed := (samples_consumed (snd bs) + 1) mod 2 ^ 32\<rparr>"
  by (simp add: copy_step_def Let_def case_prod_beta)

lemma copy_fold_state:
  assumes "samples_consumed s + n < 2 ^ 32"
  shows "snd (fold copy_step [0..<n] (buffer, s)) = s\<lparr>samples_consumed := samples_consumed s + n\<rparr>"
  using assms
proof (induction n)
  case 0
  then show ?case by simp
next
  case (Suc n)
  then have f: "snd (fold copy_step [0..<n] (buffer, s)) = s\<lparr>samples_consumed := samples_consumed s + n\<rparr>"
    by simp
  have m: "(samples_consumed s + n + 1) mod 2 ^ 32 = samples_consumed s + Suc n"
    using Suc.prems by simp
  have "snd (fold copy_step [0..<Suc n] (buffer, s)) = snd (copy_step n (fold copy_step [0..<n] (buffer, s)))"
    by simp
  also have "\<dots> = s\<lparr>samples_consumed := samples_consumed s + Suc n\<rparr>"
    unfolding snd_copy_step f using m by simp
  finally show ?case .
qed

lemma copy_phase_state:
  assumes "samples_consumed s + 16 < 2 ^ 32"
  shows "snd (snd (copy_phase cfg tests_failed s buffer)) = s\<lparr>samples_consumed := samples_consumed s + 16\<rparr>"
    and "fst (copy_phase cfg tests_failed s buffer) = (if tests_failed then - 1 else entropy_bits cfg)"
  using copy_fold_state[OF assms, of buffer]
  by (simp_all add: copy_phase_def copy_loop_def case_prod_beta)

lemma hardwareRandom32Bytes_state_ok:
  assumes c: "config_ok cfg" and s: "state_ok cfg s"
    and h: "hardwareRandom32Bytes cfg env s buffer = Some (ret, buffer', s')"
  shows "state_ok cfg s'"
proof -
  from c have lt: "SAMPLE_COUNT cfg < 2 ^ 32" by (simp add: config_ok_def)
  from h obtain r where r: "refill_phase cfg env s = Some r"
    by (auto simp: hardwareRandom32Bytes_def split: option.splits)
  show ?thesis
  proof (cases r)
    case (Inl s1)
    with h r have "s' = s1" by (simp add: hardwareRandom32Bytes_def)
    with refill_phase_Inl[OF s r[unfolded Inl]] show ?thesis by (auto simp: state_ok_def)
  next
    case (Inr p)
    obtain tf s1 where p: "p = (tf, s1)" by (cases p)
    note q = refill_phase_Inr[OF c s r[unfolded Inr p]]
    from q lt have a: "samples_consumed s1 + 16 < 2 ^ 32" by simp
    from h r Inr p have "copy_phase cfg tf s1 buffer = (ret, buffer', s')"
      by (simp add: hardwareRandom32Bytes_def)
    hence "s' = s1\<lparr>samples_consumed := samples_consumed s1 + 16\<rparr>"
      using copy_phase_state(1)[OF a, of cfg tf buffer] by simp
    with q show ?thesis unfolding state_ok_def by simp
  qed
qed



lemma copy_phase_ex:
  assumes "samples_consumed s + 16 \<le> length (samples s)" and "length (samples s) < 2 ^ 32"
  shows "\<exists>b. copy_phase cfg tests_failed s buffer =
            (if tests_failed then - 1 else entropy_bits cfg, b,
             s\<lparr>samples_consumed := samples_consumed s + 16\<rparr>) \<and>
          (length buffer = 32 \<longrightarrow>
             b = sample_bytes (take 16 (drop (samples_consumed s) (samples s))))"
proof -
  from assms have a: "samples_consumed s + 16 < 2 ^ 32" by simp
  obtain r b s2 where e: "copy_phase cfg tests_failed s buffer = (r, b, s2)"
    by (cases "copy_phase cfg tests_failed s buffer")
  from e copy_phase_state[OF a, of cfg tests_failed buffer]
  have "r = (if tests_failed then - 1 else entropy_bits cfg)"
    and "s2 = s\<lparr>samples_consumed := samples_consumed s + 16\<rparr>" by simp_all
  moreover have "length buffer = 32 \<longrightarrow> b = sample_bytes (take 16 (drop (samples_consumed s) (samples s)))"
  proof
    assume l: "length buffer = 32"
    from e show "b = sample_bytes (take 16 (drop (samples_consumed s) (samples s)))"
      by (simp add: copy_phase_result[OF l assms])
  qed
  ultimately show ?thesis using e by simp
qed

text \<open>The consumer operation, case by case.\<close>

lemma call_stuck:
  assumes "needs_refill cfg s" and "fill_samples cfg (adc_fill env) 0 (samples s) = None"
  shows "hardwareRandom32Bytes cfg env s buffer = None"
  by (simp add: hardwareRandom32Bytes_def refill_phase_stuck[OF assms])

lemma call_run_failed:
  assumes "needs_refill cfg s" and "fill_samples cfg (adc_fill env) 0 (samples s) = Some pool"
    and "run_verdict cfg (statistics_of env pool) \<noteq> 0"
    and "\<not> IGNORE_HWRNG_FAILURE cfg" and "\<not> TEST_STATISTICS cfg"
  shows "hardwareRandom32Bytes cfg env s buffer =
           Some (- 1, buffer, \<lparr>samples = pool, samples_consumed = 0\<rparr>)"
  using assms(3-5) by (simp add: hardwareRandom32Bytes_def refill_phase_run[OF assms(1,2)])

lemma call_run_passed:
  assumes c: "config_ok cfg" and s: "state_ok cfg s"
    and n: "needs_refill cfg s" and f: "fill_samples cfg (adc_fill env) 0 (samples s) = Some pool"
    and v: "run_verdict cfg (statistics_of env pool) = 0 \<or> IGNORE_HWRNG_FAILURE cfg"
  shows "\<exists>b. hardwareRandom32Bytes cfg env s buffer =
            Some (entropy_bits cfg, b, \<lparr>samples = pool, samples_consumed = 16\<rparr>) \<and>
          (length buffer = 32 \<longrightarrow> b = sample_bytes (take 16 pool))"
proof -
  from c have lt: "SAMPLE_COUNT cfg < 2 ^ 32" by (simp add: config_ok_def)
  from length_fill_samples[OF f] s have l: "length pool = SAMPLE_COUNT cfg"
    by (simp add: state_ok_def)
  let ?s1 = "\<lparr>samples = pool, samples_consumed = 0\<rparr>"
  from v have r: "refill_phase cfg env s = Some (Inr (False, ?s1))"
    by (auto simp: refill_phase_run[OF n f])
  have "samples_consumed ?s1 + 16 \<le> length (samples ?s1)" "length (samples ?s1) < 2 ^ 32"
    using l lt config_ok_multiple_of_16(2)[OF c] by simp_all
  from copy_phase_ex[OF this, of cfg False buffer] show ?thesis
    by (simp add: hardwareRandom32Bytes_def r)
qed

lemma call_no_run:
  assumes c: "config_ok cfg" and s: "state_ok cfg s" and n: "\<not> needs_refill cfg s"
  shows "\<exists>b. hardwareRandom32Bytes cfg env s buffer =
            Some (entropy_bits cfg, b, s\<lparr>samples_consumed := samples_consumed s + 16\<rparr>) \<and>
          (length buffer = 32 \<longrightarrow>
             b = sample_bytes (take 16 (drop (samples_consumed s) (samples s))))"
proof -
  from c have lt: "SAMPLE_COUNT cfg < 2 ^ 32" by (simp add: config_ok_def)
  note r = refill_phase_no_run[OF n, of env]
  from refill_phase_Inr[OF c s r] lt
  have "samples_consumed s + 16 \<le> length (samples s)" "length (samples s) < 2 ^ 32" by simp_all
  from copy_phase_ex[OF this, of cfg False buffer] show ?thesis
    by (simp add: hardwareRandom32Bytes_def r)
qed

lemma qualification_run_no_run:
  "\<not> needs_refill cfg s \<Longrightarrow> qualification_run cfg env s = None"
  by (simp add: qualification_run_def)

lemma qualification_run_run:
  "needs_refill cfg s \<Longrightarrow> fill_samples cfg (adc_fill env) 0 (samples s) = Some pool \<Longrightarrow>
   qualification_run cfg env s = Some (run_verdict cfg (statistics_of env pool), pool)"
  by (simp add: qualification_run_def)

subsection \<open>Two concrete calls\<close>

lemma fill_small_pool:
  "fill_samples small_config (\<lambda>k. Some ramp) 0 (replicate 16 0) = Some small_pool"
  by code_simp

lemma good_verdict: "run_verdict small_config good_statistics = 0"
  by code_simp

lemma overflowed_verdict: "run_verdict small_config overflowed_statistics = 255"
  by code_simp

lemma small_config_ok: "config_ok small_config"
  by (simp add: config_ok_def small_config_def DECIMATED_SAMPLE_BUFFER_SIZE_def OVERSAMPLE_RATIO_def)

lemma small_config_build:
  "\<not> TEST_STATISTICS small_config" "\<not> IGNORE_HWRNG_FAILURE small_config"
  by (simp_all add: small_config_def)

lemma small_entropy_bits: "entropy_bits small_config = 8"
  by (simp add: entropy_bits_def int_of_double_def small_config_def)

lemma initial_needs_refill: "needs_refill cfg (initial_state cfg)"
  by (simp add: needs_refill_def initial_state_def)

lemma initial_small_samples: "samples (initial_state small_config) = replicate 16 0"
  by (simp add: initial_state_def small_config_def)

lemma small_bytes:
  "sample_bytes (take 16 small_pool) =
     [254, 1, 244, 1, 248, 1, 250, 1, 252, 1, 254, 1, 0, 2, 2, 2,
      4, 2, 6, 2, 8, 2, 10, 2, 12, 2, 14, 2, 17, 2, 18, 2]"
  by (simp add: sample_bytes_def small_pool_def)

lemma good_call:
  "hardwareRandom32Bytes small_config good_environment (initial_state small_config) (replicate 32 0)
     = Some (8, sample_bytes (take 16 small_pool), \<lparr>samples = small_pool, samples_consumed = 16\<rparr>)"
proof -
  have f: "fill_samples small_config (adc_fill good_environment) 0
             (samples (initial_state small_config)) = Some small_pool"
    by (simp add: good_environment_def initial_small_samples fill_small_pool)
  have v: "run_verdict small_config (statistics_of good_environment small_pool) = 0
             \<or> IGNORE_HWRNG_FAILURE small_config"
    by (simp add: good_environment_def good_verdict)
  from call_run_passed[OF small_config_ok state_ok_initial[OF small_config_ok]
      initial_needs_refill f v, of "replicate 32 0"]
  show ?thesis by (auto simp: small_entropy_bits)
qed

lemma failing_call:
  "hardwareRandom32Bytes small_config failing_environment (initial_state small_config) buffer
     = Some (- 1, buffer, \<lparr>samples = small_pool, samples_consumed = 0\<rparr>)"
proof -
  have f: "fill_samples small_config (adc_fill failing_environment) 0
             (samples (initial_state small_config)) = Some small_pool"
    by (simp add: failing_environment_def initial_small_samples fill_small_pool)
  have v: "run_verdict small_config (statistics_of failing_environment small_pool) \<noteq> 0"
    by (simp add: failing_environment_def overflowed_verdict)
  from call_run_failed[OF initial_needs_refill f v small_config_build(2,1)]
  show ?thesis .
qed



lemma failing_run:
  "qualification_run small_config failing_environment (initial_state small_config)
     = Some (255, small_pool)"
proof -
  have f: "fill_samples small_config (adc_fill failing_environment) 0
             (samples (initial_state small_config)) = Some small_pool"
    by (simp add: failing_environment_def initial_small_samples fill_small_pool)
  show ?thesis unfolding qualification_run_run[OF initial_needs_refill f]
    by (simp add: failing_environment_def overflowed_verdict)
qed

lemma good_run:
  "qualification_run small_config good_environment (initial_state small_config)
     = Some (0, small_pool)"
proof -
  have f: "fill_samples small_config (adc_fill good_environment) 0
             (samples (initial_state small_config)) = Some small_pool"
    by (simp add: good_environment_def initial_small_samples fill_small_pool)
  show ?thesis unfolding qualification_run_run[OF initial_needs_refill f]
    by (simp add: good_environment_def good_verdict)
qed

subsection \<open>The copy postcondition\<close>



subsection \<open>The value returned on success\<close>




subsection \<open>A failed run writes nothing\<close>



subsection \<open>Only samples of a pool that passed are delivered\<close>

text \<open>
  One call in the build without \<^verbatim>\<open>TEST_STATISTICS\<close> and \<^verbatim>\<open>IGNORE_HWRNG_FAILURE\<close>, seen
  together with the record of runs: what it returns, and that it keeps
  \<open>audit_ok\<close>.
\<close>

lemma audited_call:
  assumes c: "config_ok cfg" and t: "\<not> TEST_STATISTICS cfg" and g: "\<not> IGNORE_HWRNG_FAILURE cfg"
    and ok: "audit_ok cfg s a"
    and h: "hardwareRandom32Bytes cfg env s buffer = Some (ret, buffer', s')"
  shows "audit_ok cfg s' (audit_return ret (audit_run cfg env s a)) \<and>
         (0 \<le> ret \<and> length buffer = 32 \<longrightarrow>
            (\<exists>pool. last_run (audit_run cfg env s a) = Some (0, pool) \<and>
               length pool = SAMPLE_COUNT cfg \<and>
               delivered (audit_run cfg env s a) + 16 \<le> SAMPLE_COUNT cfg \<and>
               buffer' = sample_bytes (take 16 (drop (delivered (audit_run cfg env s a)) pool)))) \<and>
         (\<forall>v pool. last_run (audit_run cfg env s a) = Some (v, pool) \<and> v \<noteq> 0 \<longrightarrow>
            ret < 0 \<and> buffer' = buffer \<and> samples_consumed s' = 0 \<and> needs_refill cfg s')"
proof -
  from ok have s: "state_ok cfg s" by (simp add: audit_ok_def)
  show ?thesis
  proof (cases "needs_refill cfg s")
    case False
    from call_no_run[OF c s False, of env buffer] h obtain b where
      ret: "ret = entropy_bits cfg" and s': "s' = s\<lparr>samples_consumed := samples_consumed s + 16\<rparr>"
      and b: "length buffer = 32 \<longrightarrow>
                buffer' = sample_bytes (take 16 (drop (samples_consumed s) (samples s)))"
      by auto
    from False have nz: "samples_consumed s \<noteq> 0" by (simp add: needs_refill_def)
    with ok have l: "last_run a = Some (0, samples s)" by (simp add: audit_ok_def)
    have a1: "audit_run cfg env s a = a"
      by (simp add: audit_run_def qualification_run_no_run[OF False])
    from refill_phase_Inr[OF c s refill_phase_no_run[OF False, of env]]
    have fit: "samples_consumed s + 16 \<le> SAMPLE_COUNT cfg" by simp
    from s have len: "length (samples s) = SAMPLE_COUNT cfg" by (simp add: state_ok_def)
    have d: "0 \<le> ret \<Longrightarrow> delivered a = samples_consumed s"
      using ok ret by (auto simp: audit_ok_def)
    have "audit_ok cfg s' (audit_return ret a)"
      using hardwareRandom32Bytes_state_ok[OF c s h] l d ret
      by (auto simp: audit_ok_def audit_return_def s')
    moreover have "0 \<le> ret \<and> length buffer = 32 \<longrightarrow>
            (\<exists>pool. last_run a = Some (0, pool) \<and> length pool = SAMPLE_COUNT cfg \<and>
               delivered a + 16 \<le> SAMPLE_COUNT cfg \<and>
               buffer' = sample_bytes (take 16 (drop (delivered a) pool)))"
      using l len fit d b by auto
    moreover have "\<forall>v pool. last_run a = Some (v, pool) \<and> v \<noteq> 0 \<longrightarrow>
            ret < 0 \<and> buffer' = buffer \<and> samples_consumed s' = 0 \<and> needs_refill cfg s'"
      using l by simp
    ultimately show ?thesis unfolding a1 by blast
  next
    case True
    show ?thesis
    proof (cases "fill_samples cfg (adc_fill env) 0 (samples s)")
      case None
      from call_stuck[OF True None, of buffer] h show ?thesis by simp
    next
      case (Some pool)
      let ?v = "run_verdict cfg (statistics_of env pool)"
      have a1: "audit_run cfg env s a = \<lparr>last_run = Some (?v, pool), delivered = 0\<rparr>"
        by (simp add: audit_run_def qualification_run_run[OF True Some])
      from length_fill_samples[OF Some] s have len: "length pool = SAMPLE_COUNT cfg"
        by (simp add: state_ok_def)
      note ok' = hardwareRandom32Bytes_state_ok[OF c s h]
      show ?thesis
      proof (cases "?v = 0")
        case False
        from call_run_failed[OF True Some False g t, of buffer] h
        have r: "ret = - 1" "buffer' = buffer" "s' = \<lparr>samples = pool, samples_consumed = 0\<rparr>"
          by simp_all
        from r ok' show ?thesis unfolding a1
          by (simp add: audit_ok_def audit_return_def needs_refill_def)
      next
        case v0: True
        hence "?v = 0 \<or> IGNORE_HWRNG_FAILURE cfg" by simp
        from call_run_passed[OF c s True Some this, of buffer] h
        have ret: "ret = entropy_bits cfg" and s': "s' = \<lparr>samples = pool, samples_consumed = 16\<rparr>"
          and b: "length buffer = 32 \<longrightarrow> buffer' = sample_bytes (take 16 pool)"
          by auto
        have "audit_ok cfg s' (audit_return ret \<lparr>last_run = Some (?v, pool), delivered = 0\<rparr>)"
          using ok' v0 ret by (auto simp: audit_ok_def audit_return_def s')
        moreover have "0 \<le> ret \<and> length buffer = 32 \<longrightarrow>
            (\<exists>pool'. Some (?v, pool) = Some (0, pool') \<and> length pool' = SAMPLE_COUNT cfg \<and>
               (0::nat) + 16 \<le> SAMPLE_COUNT cfg \<and>
               buffer' = sample_bytes (take 16 (drop 0 pool')))"
          using v0 len b config_ok_multiple_of_16(2)[OF c] by simp
        ultimately show ?thesis unfolding a1 using v0 by simp
      qed
    qed
  qed
qed

lemma audit_ok_initial: "config_ok cfg \<Longrightarrow> audit_ok cfg (initial_state cfg) initial_audit"
  by (simp add: audit_ok_def state_ok_initial) (simp add: initial_state_def initial_audit_def)

lemma audit_calls_ok:
  assumes c: "config_ok cfg" and t: "\<not> TEST_STATISTICS cfg" and g: "\<not> IGNORE_HWRNG_FAILURE cfg"
  shows "audit_ok cfg s a \<Longrightarrow> audit_calls cfg calls (s, a) = Some (s', a') \<Longrightarrow> audit_ok cfg s' a'"
proof (induction calls arbitrary: s a)
  case Nil
  then show ?case by simp
next
  case (Cons call calls)
  obtain env buffer where call: "call = (env, buffer)" by (cases call)
  from Cons.prems(2) obtain ret b s1 where
    h: "hardwareRandom32Bytes cfg env s buffer = Some (ret, b, s1)"
    and r: "audit_calls cfg calls (s1, audit_return ret (audit_run cfg env s a)) = Some (s', a')"
    by (auto simp: call split: option.splits)
  from audited_call[OF c t g Cons.prems(1) h]
  have "audit_ok cfg s1 (audit_return ret (audit_run cfg env s a))" by blast
  from Cons.IH[OF this r] show ?case .
qed

text \<open>
  C1. In the build without \<^verbatim>\<open>TEST_STATISTICS\<close> and \<^verbatim>\<open>IGNORE_HWRNG_FAILURE\<close>, after any
  sequence of calls from the initial state: a call that returns a non-negative
  value has written into the 32-byte buffer the bytes, low byte first, of the
  next 16 samples not yet handed out of the pool left by the most recent
  qualification run, and that run had verdict 0. If the most recent run had
  another verdict, the call returns a negative value, leaves the buffer as it
  was and leaves the counter at 0, so that the next call performs a fresh run.
\<close>

theorem pool_integrity:
  assumes "config_ok cfg" and "\<not> TEST_STATISTICS cfg" and "\<not> IGNORE_HWRNG_FAILURE cfg"
    and "audit_calls cfg calls (initial_state cfg, initial_audit) = Some (s, a)"
    and "length buffer = 32"
    and "hardwareRandom32Bytes cfg env s buffer = Some (ret, buffer', s')"
  shows "(0 \<le> ret \<longrightarrow>
            (\<exists>pool. last_run (audit_run cfg env s a) = Some (0, pool) \<and>
               length pool = SAMPLE_COUNT cfg \<and>
               delivered (audit_run cfg env s a) + 16 \<le> SAMPLE_COUNT cfg \<and>
               buffer' = sample_bytes (take 16 (drop (delivered (audit_run cfg env s a)) pool)))) \<and>
         (\<forall>v pool. last_run (audit_run cfg env s a) = Some (v, pool) \<and> v \<noteq> 0 \<longrightarrow>
            ret < 0 \<and> buffer' = buffer \<and> samples_consumed s' = 0 \<and> needs_refill cfg s')"
proof -
  have "audit_ok cfg s a"
    using audit_calls_ok[OF assms(1-3) audit_ok_initial[OF assms(1)] assms(4)] .
  from audited_call[OF assms(1-3) this assms(6)] assms(5) show ?thesis by blast
qed

theorem pool_integrity_witness:
  "config_ok small_config \<and> \<not> TEST_STATISTICS small_config \<and>
   \<not> IGNORE_HWRNG_FAILURE small_config \<and>
   audit_calls small_config [] (initial_state small_config, initial_audit)
     = Some (initial_state small_config, initial_audit) \<and>
   length (replicate 32 (7::byte)) = 32 \<and>
   hardwareRandom32Bytes small_config good_environment (initial_state small_config) (replicate 32 0)
     = Some (8, sample_bytes (take 16 small_pool), \<lparr>samples = small_pool, samples_consumed = 16\<rparr>) \<and>
   (0::int) \<le> 8 \<and>
   (\<exists>pool. last_run (audit_run small_config good_environment (initial_state small_config) initial_audit)
             = Some (0, pool) \<and>
      sample_bytes (take 16 small_pool) = sample_bytes (take 16 (drop
        (delivered (audit_run small_config good_environment (initial_state small_config) initial_audit))
        pool))) \<and>
   hardwareRandom32Bytes small_config failing_environment (initial_state small_config)
       (replicate 32 7)
     = Some (- 1, replicate 32 7, \<lparr>samples = small_pool, samples_consumed = 0\<rparr>) \<and>
   last_run (audit_run small_config failing_environment (initial_state small_config) initial_audit)
     = Some (255, small_pool) \<and>
   needs_refill small_config \<lparr>samples = small_pool, samples_consumed = 0\<rparr>"
proof -
  have a: "audit_calls small_config [] (initial_state small_config, initial_audit)
             = Some (initial_state small_config, initial_audit)" by simp
  have l: "length (replicate 32 (0::byte)) = 32" "length (replicate 32 (7::byte)) = 32"
    by simp_all
  note g = pool_integrity[OF small_config_ok small_config_build a l(1) good_call]
  note f = pool_integrity[OF small_config_ok small_config_build a l(2)
      failing_call[of "replicate 32 7"]]
  have lr: "last_run (audit_run small_config failing_environment (initial_state small_config)
              initial_audit) = Some (255, small_pool)"
    by (simp add: audit_run_def failing_run)
  from g have 1: "\<exists>pool. last_run (audit_run small_config good_environment
        (initial_state small_config) initial_audit) = Some (0, pool) \<and>
      sample_bytes (take 16 small_pool) = sample_bytes (take 16 (drop
        (delivered (audit_run small_config good_environment (initial_state small_config) initial_audit))
        pool))"
    by auto
  from f lr have 2: "needs_refill small_config \<lparr>samples = small_pool, samples_consumed = 0\<rparr>"
    by auto
  from 1 2 lr small_config_ok small_config_build a l good_call failing_call[of "replicate 32 7"]
  show ?thesis by simp
qed

end
